theory Spec2Isabelle
  imports Main "HOL-Library.Sublist"
begin

section \<open>Values, errors and records of \<^verbatim>\<open>litstudy/common.py\<close>\<close>

text \<open>
  Python values that can serve as a key of a \<^verbatim>\<open>set\<close>: \<^verbatim>\<open>None\<close>, strings, integers and
  tuples of such values. They are hashable, and Python's \<^verbatim>\<open>==\<close> on them is structural
  equality, which is HOL's equality on this datatype.
\<close>

datatype pyval = PNone | PStr string | PInt int | PTuple "pyval list"

text \<open>Truthiness, as \<^verbatim>\<open>if x:\<close> tests it.\<close>

fun truthy :: "pyval \<Rightarrow> bool" where
  "truthy PNone = False"
| "truthy (PStr s) = (s \<noteq> [])"
| "truthy (PInt i) = (i \<noteq> 0)"
| "truthy (PTuple vs) = (vs \<noteq> [])"

text \<open>
  The exceptions the module can raise. \<^verbatim>\<open>KeyError\<close> carries its argument: the missing key
  for a failed lookup or \<^verbatim>\<open>pop\<close>, the formatted message for the constructors' own
  \<^verbatim>\<open>raise\<close>. \<^verbatim>\<open>AttributeError\<close> carries the attribute that was not found. \<^verbatim>\<open>TypeError\<close>
  is what a call raises when a keyword argument has the name of a parameter that is
  already bound ("got multiple values for argument"), and what a sample key function
  raises on a value it cannot return as a key; it carries the name or a short reason.
\<close>

datatype error = KeyError string | AttributeError string | TypeError string

text \<open>
  Class \<^verbatim>\<open>DocumentID\<close>. Its attribute \<^verbatim>\<open>id\<close> is written \<open>id_DocumentID\<close> here, since
  \<open>id\<close> is HOL's identity function.
\<close>

record DocumentID =
  id_DocumentID :: pyval
  is_doi :: bool

text \<open>
  \<^verbatim>\<open>def __init__(self, doc_id=None)\<close>: the optional argument is an \<open>option\<close>, \<open>None\<close>
  standing for a call that leaves it out.
\<close>

definition DocumentID_init :: "pyval option \<Rightarrow> DocumentID" where
  "DocumentID_init doc_id =
     \<lparr>id_DocumentID = (case doc_id of None \<Rightarrow> PNone | Some v \<Rightarrow> v), is_doi = False\<rparr>"

text \<open>
  What an attribute of a \<^verbatim>\<open>Document\<close>, \<^verbatim>\<open>Author\<close> or \<^verbatim>\<open>Affiliation\<close> can hold. The
  constructors store whatever the caller passes, so the attributes are dynamically typed:
  a plain value, a \<^verbatim>\<open>DocumentID\<close> object, a list, or a reference to any other object.
\<close>

datatype pyobj = Val pyval | IdObj DocumentID | Seq "pyobj list" | Ref nat

text \<open>
  Class \<^verbatim>\<open>Document\<close>: one field per attribute the constructor assigns, in its order. The
  attribute \<^verbatim>\<open>id\<close> is \<open>id_Document\<close>, \<^verbatim>\<open>keywords\<close> is \<open>keywords_Document\<close> and
  \<^verbatim>\<open>_internal\<close> is \<open>internal\<close>.
\<close>

record Document =
  id_Document :: pyobj
  title :: pyobj
  authors :: pyobj
  keywords_Document :: pyobj
  abstract :: pyobj
  references :: pyobj
  year :: pyobj
  source :: pyobj
  source_type :: pyobj
  citation_count :: pyobj
  internal :: pyobj
  language :: pyobj
  publisher :: pyobj

text \<open>Class \<^verbatim>\<open>DocumentSet\<close> and its constructor.\<close>

record DocumentSet =
  docs :: "Document list"

definition DocumentSet_init :: "Document list \<Rightarrow> DocumentSet" where
  "DocumentSet_init ds = \<lparr>docs = ds\<rparr>"

section \<open>The operations of \<^verbatim>\<open>DocumentSet\<close>\<close>

text \<open>
  \<^verbatim>\<open>filter\<close>: the list comprehension \<^verbatim>\<open>[d for d in self.docs if predicate(d)]\<close>, wrapped in
  a new \<^verbatim>\<open>DocumentSet\<close>. The function returns the new object only: the receiver is an
  argument that is read and never written.
\<close>

definition filter_DocumentSet :: "DocumentSet \<Rightarrow> (Document \<Rightarrow> bool) \<Rightarrow> DocumentSet" where
  "filter_DocumentSet self predicate = DocumentSet_init [d \<leftarrow> docs self. predicate d]"

text \<open>
  The nested function \<^verbatim>\<open>default_key\<close> of \<^verbatim>\<open>filter_duplicates\<close> and of \<^verbatim>\<open>difference\<close>:
  \<^verbatim>\<open>document.id.id\<close>. The second attribute access succeeds on a \<^verbatim>\<open>DocumentID\<close> object;
  on any other object of this model it raises \<^verbatim>\<open>AttributeError\<close>.
\<close>

definition default_key :: "Document \<Rightarrow> error + pyval" where
  "default_key document =
     (case id_Document document of
        IdObj i \<Rightarrow> Inr (id_DocumentID i)
      | _ \<Rightarrow> Inl (AttributeError ''id''))"

text \<open>
  \<^verbatim>\<open>if key is None: key = default_key\<close>. A key function returns a hashable value or raises;
  what it raises propagates out of the loops below.
\<close>

type_synonym key_fn = "Document \<Rightarrow> error + pyval"

definition key_or_default :: "key_fn option \<Rightarrow> key_fn" where
  "key_or_default key = (case key of None \<Rightarrow> default_key | Some f \<Rightarrow> f)"

text \<open>
  The loop of \<^verbatim>\<open>filter_duplicates\<close>, with its two accumulators \<^verbatim>\<open>keys\<close> (a set) and
  \<^verbatim>\<open>result\<close> (a list that is appended to).
\<close>

fun filter_duplicates_loop ::
  "key_fn \<Rightarrow> Document list \<Rightarrow> pyval set \<Rightarrow> Document list \<Rightarrow> error + Document list" where
  "filter_duplicates_loop key [] keys result = Inr result"
| "filter_duplicates_loop key (doc # rest) keys result =
     (case key doc of
        Inl e \<Rightarrow> Inl e
      | Inr k \<Rightarrow>
          if k \<notin> keys
          then filter_duplicates_loop key rest (insert k keys) (result @ [doc])
          else filter_duplicates_loop key rest keys result)"

definition filter_duplicates :: "DocumentSet \<Rightarrow> key_fn option \<Rightarrow> error + DocumentSet" where
  "filter_duplicates self key =
     (case filter_duplicates_loop (key_or_default key) (docs self) {} [] of
        Inl e \<Rightarrow> Inl e
      | Inr result \<Rightarrow> Inr (DocumentSet_init result))"

text \<open>\<^verbatim>\<open>union\<close>: \<^verbatim>\<open>DocumentSet(self.docs + other.docs).filter_duplicates(key=key)\<close>.\<close>

definition union :: "DocumentSet \<Rightarrow> DocumentSet \<Rightarrow> key_fn option \<Rightarrow> error + DocumentSet" where
  "union self other key =
     filter_duplicates (DocumentSet_init (docs self @ docs other)) key"

text \<open>
  \<^verbatim>\<open>difference\<close>: a first loop collects the keys of \<^verbatim>\<open>other\<close>, a second one keeps the
  documents of \<^verbatim>\<open>self\<close> whose key is not among them.
\<close>

fun keys_other_loop :: "key_fn \<Rightarrow> Document list \<Rightarrow> pyval set \<Rightarrow> error + pyval set" where
  "keys_other_loop key [] keys_other = Inr keys_other"
| "keys_other_loop key (doc # rest) keys_other =
     (case key doc of
        Inl e \<Rightarrow> Inl e
      | Inr k \<Rightarrow> keys_other_loop key rest (insert k keys_other))"

fun difference_loop ::
  "key_fn \<Rightarrow> Document list \<Rightarrow> pyval set \<Rightarrow> Document list \<Rightarrow> error + Document list" where
  "difference_loop key [] keys_other result = Inr result"
| "difference_loop key (doc # rest) keys_other result =
     (case key doc of
        Inl e \<Rightarrow> Inl e
      | Inr k \<Rightarrow>
          if k \<notin> keys_other
          then difference_loop key rest keys_other (result @ [doc])
          else difference_loop key rest keys_other result)"

definition difference :: "DocumentSet \<Rightarrow> DocumentSet \<Rightarrow> key_fn option \<Rightarrow> error + DocumentSet" where
  "difference self other key =
     (case keys_other_loop (key_or_default key) (docs other) {} of
        Inl e \<Rightarrow> Inl e
      | Inr keys_other \<Rightarrow>
          (case difference_loop (key_or_default key) (docs self) keys_other [] of
             Inl e \<Rightarrow> Inl e
           | Inr result \<Rightarrow> Inr (DocumentSet_init result)))"

section \<open>The methods of \<^verbatim>\<open>DocumentID\<close>\<close>

text \<open>
  \<^verbatim>\<open>parse_scopus\<close> reads three attributes of a Scopus abstract; each holds a string or
  \<^verbatim>\<open>None\<close>. The method assigns to \<^verbatim>\<open>self\<close>: the model takes the object and returns it
  updated. \<^verbatim>\<open>is_doi\<close> is assigned in the first branch only.
\<close>

record scopus_abstract =
  doi :: pyval
  eid :: pyval
  title_scopus :: pyval

definition parse_scopus :: "DocumentID \<Rightarrow> scopus_abstract \<Rightarrow> DocumentID" where
  "parse_scopus self sa =
     (if truthy (doi sa) then self\<lparr>id_DocumentID := doi sa, is_doi := True\<rparr>
      else if truthy (eid sa) then self\<lparr>id_DocumentID := eid sa\<rparr>
      else self\<lparr>id_DocumentID := title_scopus sa\<rparr>)"

text \<open>Subscription \<^verbatim>\<open>d[k]\<close> of a dictionary: the value, or \<^verbatim>\<open>KeyError(k)\<close>.\<close>

definition getitem :: "(string \<rightharpoonup> 'v) \<Rightarrow> string \<Rightarrow> error + 'v" where
  "getitem d k = (case d k of None \<Rightarrow> Inl (KeyError k) | Some v \<Rightarrow> Inr v)"

text \<open>
  \<^verbatim>\<open>parse_dblp\<close>: a DBLP entry is a dictionary whose \<^verbatim>\<open>"info"\<close> entry is a dictionary
  again. The \<^verbatim>\<open>try\<close> body is the double subscription followed by the two assignments;
  \<^verbatim>\<open>except KeyError\<close> runs the title lookup, whose own \<^verbatim>\<open>KeyError\<close> is outside the \<^verbatim>\<open>try\<close>
  and leaves the method.
\<close>

type_synonym dblp_result = "string \<rightharpoonup> (string \<rightharpoonup> pyval)"

definition parse_dblp :: "DocumentID \<Rightarrow> dblp_result \<Rightarrow> error + DocumentID" where
  "parse_dblp self dblp =
     (case (case getitem dblp ''info'' of
              Inl e \<Rightarrow> Inl e
            | Inr info \<Rightarrow> getitem info ''doi'') of
        Inr v \<Rightarrow> Inr (self\<lparr>id_DocumentID := v, is_doi := True\<rparr>)
      | Inl (KeyError _) \<Rightarrow>
          (case (case getitem dblp ''info'' of
                   Inl e \<Rightarrow> Inl e
                 | Inr info \<Rightarrow> getitem info ''title'') of
             Inl e \<Rightarrow> Inl e
           | Inr t \<Rightarrow> Inr (self\<lparr>id_DocumentID := t\<rparr>))
      | Inl e \<Rightarrow> Inl e)"

text \<open>
  Python's \<^verbatim>\<open>s.replace(old, new)\<close>: scanning from the left, every occurrence of \<^verbatim>\<open>old\<close>
  that does not overlap an earlier one is replaced, wherever it stands in \<^verbatim>\<open>s\<close>. For an
  empty \<^verbatim>\<open>old\<close>, \<^verbatim>\<open>new\<close> is put before every character and at the end.
\<close>

function str_replace :: "string \<Rightarrow> string \<Rightarrow> string \<Rightarrow> string" where
  "str_replace [] old new = (if old = [] then new else [])"
| "str_replace (c # cs) old new =
     (if old = [] then new @ concat (map (\<lambda>x. x # new) (c # cs))
      else if prefix old (c # cs) then new @ str_replace (drop (length old) (c # cs)) old new
      else c # str_replace cs old new)"
  by pat_completeness auto
termination
  by (relation "measure (\<lambda>(s, old, new). length s)") auto

text \<open>
  \<^verbatim>\<open>parse_bibtex\<close>: a BibTeX entry is a dictionary from field names to strings. Both
  \<^verbatim>\<open>replace\<close> calls and the assignment of \<^verbatim>\<open>is_doi\<close> are inside the \<^verbatim>\<open>try\<close>; only the
  subscription can raise.
\<close>

type_synonym bibtex_entry = "string \<rightharpoonup> string"

definition parse_bibtex :: "DocumentID \<Rightarrow> bibtex_entry \<Rightarrow> error + DocumentID" where
  "parse_bibtex self entry =
     (case getitem entry ''doi'' of
        Inr v \<Rightarrow>
          Inr (self\<lparr>id_DocumentID :=
                      PStr (str_replace (str_replace v ''http://doi.org/'' [])
                              ''http://doi.ieeecomputersociety.org/'' []),
                    is_doi := True\<rparr>)
      | Inl (KeyError _) \<Rightarrow>
          (case getitem entry ''title'' of
             Inl e \<Rightarrow> Inl e
           | Inr t \<Rightarrow> Inr (self\<lparr>id_DocumentID := PStr t\<rparr>))
      | Inl e \<Rightarrow> Inl e)"

section \<open>The constructors of \<^verbatim>\<open>Document\<close>, \<^verbatim>\<open>Author\<close> and \<^verbatim>\<open>Affiliation\<close>\<close>

text \<open>
  \<^verbatim>\<open>**kwargs\<close> is a dictionary in the order the caller wrote the arguments: an association
  list with distinct names. \<^verbatim>\<open>kwargs.pop(k)\<close> returns the value and removes the entry, or
  raises \<^verbatim>\<open>KeyError(k)\<close>; \<^verbatim>\<open>kwargs.pop(k, default)\<close> returns the default instead.
\<close>

type_synonym kwargs = "(string \<times> pyobj) list"

definition pop :: "kwargs \<Rightarrow> string \<Rightarrow> error + pyobj \<times> kwargs" where
  "pop kw k =
     (case map_of kw k of
        None \<Rightarrow> Inl (KeyError k)
      | Some v \<Rightarrow> Inr (v, [p \<leftarrow> kw. fst p \<noteq> k]))"

definition pop_default :: "kwargs \<Rightarrow> string \<Rightarrow> pyobj \<Rightarrow> pyobj \<times> kwargs" where
  "pop_default kw k dflt =
     (case map_of kw k of
        None \<Rightarrow> (dflt, kw)
      | Some v \<Rightarrow> (v, [p \<leftarrow> kw. fst p \<noteq> k]))"

text \<open>
  All three constructors are declared \<^verbatim>\<open>def __init__(self, **kwargs)\<close>. A keyword argument
  with the name \<^verbatim>\<open>self\<close> clashes with the first parameter, which the object already binds:
  the call raises \<^verbatim>\<open>TypeError\<close> before the body runs. Every other name goes into
  \<^verbatim>\<open>kwargs\<close>.
\<close>

definition self_clash :: "kwargs \<Rightarrow> bool" where
  "self_clash kwargs \<longleftrightarrow> ''self'' \<in> fst ` set kwargs"

text \<open>
  The closing statement of all three constructors: \<^verbatim>\<open>if kwargs: raise KeyError(...)\<close>, the
  message formatted with \<^verbatim>\<open>next(iter(kwargs))\<close>, the first name left in the dictionary.
\<close>

definition unexpected :: "kwargs \<Rightarrow> error option" where
  "unexpected kw =
     (case kw of
        [] \<Rightarrow> None
      | (k, _) # _ \<Rightarrow> Some (KeyError (''got an unexpected keyword argument '' @ k)))"

definition Document_init :: "kwargs \<Rightarrow> error + Document" where
  "Document_init kwargs =
     (if self_clash kwargs then Inl (TypeError ''self'')
      else
     (case pop kwargs ''id'' of
        Inl e \<Rightarrow> Inl e
      | Inr (v_id, kw1) \<Rightarrow>
     (case pop kw1 ''title'' of
        Inl e \<Rightarrow> Inl e
      | Inr (v_title, kw2) \<Rightarrow>
     (let (v_authors, kw3) = pop_default kw2 ''authors'' (Val PNone);
          (v_keywords, kw4) = pop_default kw3 ''keywords'' (Val PNone);
          (v_abstract, kw5) = pop_default kw4 ''abstract'' (Val PNone);
          (v_references, kw6) = pop_default kw5 ''references'' (Val PNone);
          (v_year, kw7) = pop_default kw6 ''year'' (Val PNone);
          (v_source, kw8) = pop_default kw7 ''source'' (Val PNone);
          (v_source_type, kw9) = pop_default kw8 ''source_type'' (Val PNone);
          (v_citation_count, kw10) = pop_default kw9 ''citation_count'' (Val PNone);
          (v_internal, kw11) = pop_default kw10 ''internal'' (Val PNone);
          (v_language, kw12) = pop_default kw11 ''language'' (Val PNone);
          (v_publisher, kw13) = pop_default kw12 ''publisher'' (Val PNone)
      in case unexpected kw13 of
           Some e \<Rightarrow> Inl e
         | None \<Rightarrow>
             Inr \<lparr>id_Document = v_id, title = v_title, authors = v_authors,
                  keywords_Document = v_keywords, abstract = v_abstract,
                  references = v_references, year = v_year, source = v_source,
                  source_type = v_source_type, citation_count = v_citation_count,
                  internal = v_internal, language = v_language,
                  publisher = v_publisher\<rparr>))))"

text \<open>
  Class \<^verbatim>\<open>Author\<close> (\<^verbatim>\<open>name\<close> is \<open>name_Author\<close>). Its constructor pops \<^verbatim>\<open>orcid\<close> before
  the required \<^verbatim>\<open>name\<close>.
\<close>

record Author =
  orcid :: pyobj
  name_Author :: pyobj
  affiliations :: pyobj

definition Author_init :: "kwargs \<Rightarrow> error + Author" where
  "Author_init kwargs =
     (if self_clash kwargs then Inl (TypeError ''self'')
      else
     (let (v_orcid, kw1) = pop_default kwargs ''orcid'' (Val PNone)
      in case pop kw1 ''name'' of
           Inl e \<Rightarrow> Inl e
         | Inr (v_name, kw2) \<Rightarrow>
             (let (v_affiliations, kw3) = pop_default kw2 ''affiliations'' (Val PNone)
              in case unexpected kw3 of
                   Some e \<Rightarrow> Inl e
                 | None \<Rightarrow>
                     Inr \<lparr>orcid = v_orcid, name_Author = v_name,
                          affiliations = v_affiliations\<rparr>)))"

text \<open>Class \<^verbatim>\<open>Affiliation\<close> (\<^verbatim>\<open>name\<close> is \<open>name_Affiliation\<close>).\<close>

record Affiliation =
  name_Affiliation :: pyobj
  city :: pyobj
  country :: pyobj

definition Affiliation_init :: "kwargs \<Rightarrow> error + Affiliation" where
  "Affiliation_init kwargs =
     (if self_clash kwargs then Inl (TypeError ''self'')
      else
     (case pop kwargs ''name'' of
        Inl e \<Rightarrow> Inl e
      | Inr (v_name, kw1) \<Rightarrow>
          (let (v_city, kw2) = pop_default kw1 ''city'' (Val PNone);
               (v_country, kw3) = pop_default kw2 ''country'' (Val PNone)
           in case unexpected kw3 of
                Some e \<Rightarrow> Inl e
              | None \<Rightarrow>
                  Inr \<lparr>name_Affiliation = v_name, city = v_city, country = v_country\<rparr>)))"

section \<open>Reference functions and sample records\<close>

text \<open>
  First-occurrence-wins deduplication as a function on lists, for a key function \<open>k\<close> and
  a set \<open>seen\<close> of keys that count as already met. The properties of the loops are stated
  against it.
\<close>

fun first_occurrences :: "('a \<Rightarrow> 'k) \<Rightarrow> 'k set \<Rightarrow> 'a list \<Rightarrow> 'a list" where
  "first_occurrences k seen [] = []"
| "first_occurrences k seen (x # xs) =
     (if k x \<in> seen then first_occurrences k seen xs
      else x # first_occurrences k (insert (k x) seen) xs)"

text \<open>
  The value the default key returns on a document that carries a \<^verbatim>\<open>DocumentID\<close>, as a
  total function for use in statements.
\<close>

definition id_value :: "Document \<Rightarrow> pyval" where
  "id_value d = (case id_Document d of IdObj i \<Rightarrow> id_DocumentID i | _ \<Rightarrow> PNone)"

text \<open>
  Sample documents: identifier, title and source given, every other attribute unavailable.
  \<open>docA\<close> to \<open>docD\<close> are the four documents of the specification's union scenario; the
  source tells \<open>docB\<close> and \<open>docD\<close> apart.
\<close>

definition sample_document :: "pyobj \<Rightarrow> string \<Rightarrow> string \<Rightarrow> Document" where
  "sample_document i t s =
     \<lparr>id_Document = i, title = Val (PStr t), authors = Val PNone,
      keywords_Document = Val PNone, abstract = Val PNone, references = Val PNone,
      year = Val PNone, source = Val (PStr s), source_type = Val PNone,
      citation_count = Val PNone, internal = Val PNone, language = Val PNone,
      publisher = Val PNone\<rparr>"

definition docA :: Document where
  "docA = sample_document (IdObj \<lparr>id_DocumentID = PStr ''10.1/x'', is_doi = True\<rparr>)
            ''Title A'' ''first''"

definition docB :: Document where
  "docB = sample_document (IdObj \<lparr>id_DocumentID = PStr ''Same Title'', is_doi = False\<rparr>)
            ''Same Title'' ''first''"

definition docC :: Document where
  "docC = sample_document (IdObj \<lparr>id_DocumentID = PStr ''10.1/x'', is_doi = True\<rparr>)
            ''Title C'' ''second''"

definition docD :: Document where
  "docD = sample_document (IdObj \<lparr>id_DocumentID = PStr ''Same Title'', is_doi = False\<rparr>)
            ''Same Title'' ''second''"

text \<open>
  Stripping a prefix from the front of a string only, and the normalisation of a DOI as
  the specification words it: the two known URL prefixes stripped from the front, the
  rest of the value untouched. These two functions are not in the source; \<^verbatim>\<open>parse_bibtex\<close>
  is compared with them.
\<close>

definition strip_front :: "string \<Rightarrow> string \<Rightarrow> string" where
  "strip_front s p = (if prefix p s then drop (length p) s else s)"

definition spec_normalize_doi :: "string \<Rightarrow> string" where
  "spec_normalize_doi v =
     strip_front (strip_front v ''http://doi.org/'') ''http://doi.ieeecomputersociety.org/''"

text \<open>
  The names each constructor pops, in its order, and the names of a \<^verbatim>\<open>kwargs\<close> dictionary
  that are not among them, in the order of the dictionary.
\<close>

definition Document_fields :: "string list" where
  "Document_fields =
     [''id'', ''title'', ''authors'', ''keywords'', ''abstract'', ''references'', ''year'',
      ''source'', ''source_type'', ''citation_count'', ''internal'', ''language'', ''publisher'']"

definition Author_fields :: "string list" where
  "Author_fields = [''orcid'', ''name'', ''affiliations'']"

definition Affiliation_fields :: "string list" where
  "Affiliation_fields = [''name'', ''city'', ''country'']"

definition unrecognized :: "string list \<Rightarrow> kwargs \<Rightarrow> string list" where
  "unrecognized names kw = [k \<leftarrow> map fst kw. k \<notin> set names]"





text \<open>
  A sample key function to pass to the operations, \<^verbatim>\<open>lambda document: document.title\<close>
  for titles that are plain values (on any other title this sample raises), and the
  value it returns as a total function.
\<close>

definition title_key :: key_fn where
  "title_key document =
     (case title document of Val v \<Rightarrow> Inr v | _ \<Rightarrow> Inl (TypeError ''unhashable''))"

definition title_value :: "Document \<Rightarrow> pyval" where
  "title_value d = (case title d of Val v \<Rightarrow> v | _ \<Rightarrow> PNone)"

lemmas sample_defs =
  DocumentSet_init_def id_value_def title_value_def title_key_def
  docA_def docB_def docC_def docD_def sample_document_def

section \<open>Deduplication on lists\<close>

lemma first_occurrences_append:
  "first_occurrences k S (xs @ ys) =
   first_occurrences k S xs @ first_occurrences k (S \<union> k ` set xs) ys"
  by (induction xs arbitrary: S) (auto simp: insert_absorb)

lemma first_occurrences_keys:
  "k ` set (first_occurrences k S xs) = k ` set xs - S"
  by (induction xs arbitrary: S) auto

lemma first_occurrences_subset:
  "set (first_occurrences k S xs) \<subseteq> set xs"
  by (induction xs arbitrary: S) auto

lemma first_occurrences_distinct:
  "distinct (map k (first_occurrences k S xs))"
  by (induction xs arbitrary: S) (auto simp: first_occurrences_keys)

lemma first_occurrences_subseq:
  "subseq (first_occurrences k S xs) xs"
  by (induction xs arbitrary: S) auto

text \<open>
  The element at position \<open>i\<close> survives exactly when its key is not in \<open>S\<close> and differs
  from the key of every earlier position. The induction runs from the right end of the
  list, where appending one element adds one index.
\<close>

lemma first_occurrences_index:
  "first_occurrences k S xs =
   map ((!) xs) [i \<leftarrow> [0..<length xs]. k (xs ! i) \<notin> S \<and> (\<forall>j<i. k (xs ! j) \<noteq> k (xs ! i))]"
proof (induction xs rule: rev_induct)
  case Nil
  show ?case by simp
next
  case (snoc x xs)
  let ?n = "length xs"
  let ?P = "\<lambda>ys i. k (ys ! i) \<notin> S \<and> (\<forall>j<i. k (ys ! j) \<noteq> k (ys ! i))"
  have old: "filter (?P (xs @ [x])) [0..<?n] = filter (?P xs) [0..<?n]"
    by (rule filter_cong) (auto simp: nth_append)
  have old_map:
    "map ((!) (xs @ [x])) (filter (?P xs) [0..<?n]) = map ((!) xs) (filter (?P xs) [0..<?n])"
    by (rule map_cong) (auto simp: nth_append)
  have last: "?P (xs @ [x]) ?n \<longleftrightarrow> k x \<notin> S \<union> k ` set xs"
  proof -
    have "(\<forall>j<?n. k (xs ! j) \<noteq> k x) \<longleftrightarrow> k x \<notin> k ` set xs"
      by (metis (no_types, lifting) image_iff in_set_conv_nth)
    then show ?thesis by (simp add: nth_append)
  qed
  have "first_occurrences k S (xs @ [x]) =
        first_occurrences k S xs @ (if k x \<in> S \<union> k ` set xs then [] else [x])"
    by (simp add: first_occurrences_append)
  also have "\<dots> = map ((!) (xs @ [x])) (filter (?P (xs @ [x])) [0..<Suc ?n])"
    using last by (simp add: snoc.IH old old_map del: Un_iff)
  finally show ?case by simp
qed

lemma first_occurrences_fixed:
  "distinct (map k ys) \<Longrightarrow> k ` set ys \<inter> S = {} \<Longrightarrow> first_occurrences k S ys = ys"
  by (induction ys arbitrary: S) auto

lemma first_occurrences_idem:
  "first_occurrences k S (first_occurrences k S xs) = first_occurrences k S xs"
  by (rule first_occurrences_fixed) (auto simp: first_occurrences_distinct first_occurrences_keys)


text \<open>Filtering by a predicate, read position by position.\<close>

lemma nth_filter_upt:
  "map ((!) xs) [i \<leftarrow> [0..<length xs]. p (xs ! i)] = filter p xs"
proof -
  have "filter p xs = filter p (map ((!) xs) [0..<length xs])"
    by (simp add: map_nth)
  also have "\<dots> = map ((!) xs) [i \<leftarrow> [0..<length xs]. p (xs ! i)]"
    by (simp add: filter_map comp_def)
  finally show ?thesis by simp
qed

lemma count_list_filter:
  "count_list (filter p xs) d = (if p d then count_list xs d else 0)"
  by (induction xs) auto

section \<open>The loops, for a key function that returns on every document\<close>

lemma filter_duplicates_loop_total:
  "\<forall>d\<in>set xs. key d = Inr (k d) \<Longrightarrow>
   filter_duplicates_loop key xs keys result = Inr (result @ first_occurrences k keys xs)"
  by (induction xs arbitrary: keys result) auto

lemma filter_duplicates_total:
  assumes "\<forall>d\<in>set (docs C). key_or_default key d = Inr (k d)"
  shows "filter_duplicates C key = Inr (DocumentSet_init (first_occurrences k {} (docs C)))"
  using filter_duplicates_loop_total [OF assms, of "{}" "[]"]
  by (simp add: filter_duplicates_def)

lemma keys_other_loop_total:
  "\<forall>d\<in>set xs. key d = Inr (k d) \<Longrightarrow> keys_other_loop key xs S = Inr (S \<union> k ` set xs)"
  by (induction xs arbitrary: S) auto

lemma difference_loop_total:
  "\<forall>d\<in>set xs. key d = Inr (k d) \<Longrightarrow>
   difference_loop key xs S result = Inr (result @ [d \<leftarrow> xs. k d \<notin> S])"
  by (induction xs arbitrary: result) auto

lemma default_key_Inr:
  "default_key d = Inr v \<longleftrightarrow> (\<exists>i. id_Document d = IdObj i \<and> v = id_DocumentID i)"
  by (auto simp: default_key_def split: pyobj.splits)

text \<open>
  The key the operations use on a document: what the supplied function returns, or, when
  none is supplied, the \<^verbatim>\<open>id\<close> attribute of the document's \<^verbatim>\<open>DocumentID\<close>.
\<close>

lemma key_or_default_returns:
  assumes "case key of
             Some f \<Rightarrow> \<forall>d\<in>set ds. f d = Inr (k d)
           | None \<Rightarrow> \<forall>d\<in>set ds. \<exists>i. id_Document d = IdObj i \<and> k d = id_DocumentID i"
  shows "\<forall>d\<in>set ds. key_or_default key d = Inr (k d)"
proof (cases key)
  case None
  with assms show ?thesis
    by (auto simp: key_or_default_def default_key_def)
next
  case (Some f)
  with assms show ?thesis
    by (simp add: key_or_default_def)
qed

section \<open>\<^verbatim>\<open>filter_duplicates\<close>\<close>

text \<open>
  Claim C1. Let \<open>key\<close> be the argument of \<^verbatim>\<open>filter_duplicates\<close> and let \<open>k\<close> give the key of
  each document of \<open>C\<close>: the value the supplied key function returns on it or, when no key
  function is supplied, the \<^verbatim>\<open>id\<close> attribute of its \<^verbatim>\<open>DocumentID\<close>. Then the call returns
  a new document set \<open>R\<close> such that: the document at position \<open>i\<close> of \<open>C\<close> is kept exactly
  when no earlier position of \<open>C\<close> has the same key, and the kept documents stand in \<open>R\<close>
  in the order of their positions in \<open>C\<close>; no two documents of \<open>R\<close> have equal keys; \<open>R\<close>
  is a subsequence of \<open>C\<close>.
\<close>

theorem filter_duplicates_first_occurrence:
  assumes "case key of
             Some f \<Rightarrow> \<forall>d\<in>set (docs C). f d = Inr (k d)
           | None \<Rightarrow>
               \<forall>d\<in>set (docs C). \<exists>i. id_Document d = IdObj i \<and> k d = id_DocumentID i"
  shows "\<exists>R. filter_duplicates C key = Inr R
           \<and> docs R = map ((!) (docs C))
                [i \<leftarrow> [0..<length (docs C)]. \<forall>j<i. k (docs C ! j) \<noteq> k (docs C ! i)]
           \<and> distinct (map k (docs R))
           \<and> subseq (docs R) (docs C)"
proof -
  let ?R = "DocumentSet_init (first_occurrences k {} (docs C))"
  have total: "\<forall>d\<in>set (docs C). key_or_default key d = Inr (k d)"
    using assms by (rule key_or_default_returns)
  have "filter_duplicates C key = Inr ?R"
    by (rule filter_duplicates_total [OF total])
  moreover have "docs ?R = map ((!) (docs C))
      [i \<leftarrow> [0..<length (docs C)]. \<forall>j<i. k (docs C ! j) \<noteq> k (docs C ! i)]"
    using first_occurrences_index [of k "{}" "docs C"] by (simp add: DocumentSet_init_def)
  moreover have "distinct (map k (docs ?R))"
    by (simp add: DocumentSet_init_def first_occurrences_distinct)
  moreover have "subseq (docs ?R) (docs C)"
    by (simp add: DocumentSet_init_def first_occurrences_subseq)
  ultimately show ?thesis by blast
qed

text \<open>
  On the four sample documents. With the title as the supplied key, only \<open>docD\<close> repeats
  an earlier title and goes. With the default key, \<open>docC\<close> repeats the identifier of
  \<open>docA\<close> and \<open>docD\<close> that of \<open>docB\<close>, so the first two remain.
\<close>

theorem filter_duplicates_first_occurrence_witness:
  "filter_duplicates (DocumentSet_init [docA, docB, docC, docD]) (Some title_key) =
     Inr (DocumentSet_init [docA, docB, docC])
   \<and> filter_duplicates (DocumentSet_init [docA, docB, docC, docD]) None =
     Inr (DocumentSet_init [docA, docB])"
proof -
  let ?C = "DocumentSet_init [docA, docB, docC, docD]"
  have supplied: "case Some title_key of
      Some f \<Rightarrow> \<forall>d\<in>set (docs ?C). f d = Inr (title_value d)
    | None \<Rightarrow>
        \<forall>d\<in>set (docs ?C). \<exists>i. id_Document d = IdObj i \<and> title_value d = id_DocumentID i"
    by (simp add: sample_defs)
  from filter_duplicates_first_occurrence [OF supplied]
  obtain R where R: "filter_duplicates ?C (Some title_key) = Inr R"
    and ds: "docs R = map ((!) (docs ?C))
      [i \<leftarrow> [0..<length (docs ?C)].
         \<forall>j<i. title_value (docs ?C ! j) \<noteq> title_value (docs ?C ! i)]"
    by blast
  have "docs R = [docA, docB, docC]"
    unfolding ds by (simp add: sample_defs All_less_Suc)
  then have "R = DocumentSet_init [docA, docB, docC]"
    by (simp add: DocumentSet_init_def)
  with R have first: "filter_duplicates ?C (Some title_key) =
      Inr (DocumentSet_init [docA, docB, docC])"
    by simp
  have dflt: "case None of
      Some f \<Rightarrow> \<forall>d\<in>set (docs ?C). f d = Inr (id_value d)
    | None \<Rightarrow>
        \<forall>d\<in>set (docs ?C). \<exists>i. id_Document d = IdObj i \<and> id_value d = id_DocumentID i"
    by (simp add: sample_defs)
  from filter_duplicates_first_occurrence [OF dflt]
  obtain R' where R': "filter_duplicates ?C None = Inr R'"
    and ds': "docs R' = map ((!) (docs ?C))
      [i \<leftarrow> [0..<length (docs ?C)]. \<forall>j<i. id_value (docs ?C ! j) \<noteq> id_value (docs ?C ! i)]"
    by blast
  have "docs R' = [docA, docB]"
    unfolding ds' by (simp add: sample_defs All_less_Suc)
  then have "R' = DocumentSet_init [docA, docB]"
    by (simp add: DocumentSet_init_def)
  with R' have "filter_duplicates ?C None = Inr (DocumentSet_init [docA, docB])"
    by simp
  with first show ?thesis by (rule conjI)
qed

text \<open>
  Claim C9. \<^verbatim>\<open>filter_duplicates\<close> is idempotent: for a key function that returns on every
  document of \<open>C\<close>, the first call returns a document set \<open>R\<close>, and the call on \<open>R\<close> with
  the same key returns \<open>R\<close> again, the same documents in the same order; so does the
  chained call \<^verbatim>\<open>C.filter_duplicates(k).filter_duplicates(k)\<close>.
\<close>

theorem filter_duplicates_idempotent:
  assumes "\<forall>d\<in>set (docs C). key_or_default key d = Inr (k d)"
  shows "\<exists>R. filter_duplicates C key = Inr R \<and> filter_duplicates R key = Inr R
           \<and> (case filter_duplicates C key of
                 Inl e \<Rightarrow> Inl e
               | Inr R' \<Rightarrow> filter_duplicates R' key) = Inr R"
proof -
  let ?R = "DocumentSet_init (first_occurrences k {} (docs C))"
  have first: "filter_duplicates C key = Inr ?R"
    by (rule filter_duplicates_total [OF assms])
  have "set (docs ?R) \<subseteq> set (docs C)"
    by (simp add: DocumentSet_init_def first_occurrences_subset)
  with assms have "\<forall>d\<in>set (docs ?R). key_or_default key d = Inr (k d)"
    by blast
  from filter_duplicates_total [OF this]
  have second: "filter_duplicates ?R key = Inr ?R"
    by (simp add: DocumentSet_init_def first_occurrences_idem)
  from first second show ?thesis by simp
qed

theorem filter_duplicates_idempotent_witness:
  "filter_duplicates (DocumentSet_init [docA, docB, docC, docD]) None =
     Inr (DocumentSet_init [docA, docB])
   \<and> filter_duplicates (DocumentSet_init [docA, docB]) None =
     Inr (DocumentSet_init [docA, docB])"
proof -
  let ?C = "DocumentSet_init [docA, docB, docC, docD]"
  have total: "\<forall>d\<in>set (docs ?C). key_or_default None d = Inr (id_value d)"
    by (simp add: key_or_default_def default_key_def sample_defs)
  from filter_duplicates_idempotent [OF total]
  obtain R where R: "filter_duplicates ?C None = Inr R"
    and RR: "filter_duplicates R None = Inr R"
    by blast
  have "filter_duplicates ?C None = Inr (DocumentSet_init [docA, docB])"
    by (simp add: filter_duplicates_def key_or_default_def default_key_def sample_defs)
  with R have "R = DocumentSet_init [docA, docB]" by simp
  with R RR show ?thesis by simp
qed

section \<open>\<^verbatim>\<open>union\<close>\<close>

text \<open>
  Claim C2. \<^verbatim>\<open>A.union(B, key)\<close> is \<^verbatim>\<open>filter_duplicates(key)\<close> of the document set built from
  the documents of \<open>A\<close> followed by those of \<open>B\<close>: the two calls return the same result,
  also when the key function raises. Let \<open>k\<close> give the key of each document of \<open>A\<close> and of
  \<open>B\<close>: the value the supplied key function returns on it or, when no key function is
  supplied, the \<^verbatim>\<open>id\<close> attribute of its \<^verbatim>\<open>DocumentID\<close>. Then the union consists of the
  documents of \<^verbatim>\<open>A.filter_duplicates(key)\<close>, in their order, followed by the documents of
  \<open>B\<close> whose key occurs neither in \<open>A\<close> nor at an earlier position of \<open>B\<close>, in the order
  of \<open>B\<close>.
\<close>

theorem union_concatenate_then_filter_duplicates:
  "union A B key = filter_duplicates (DocumentSet_init (docs A @ docs B)) key
   \<and> ((case key of
          Some f \<Rightarrow> \<forall>d\<in>set (docs A @ docs B). f d = Inr (k d)
        | None \<Rightarrow>
            \<forall>d\<in>set (docs A @ docs B). \<exists>i. id_Document d = IdObj i \<and> k d = id_DocumentID i)
      \<longrightarrow> (\<exists>RA RU. filter_duplicates A key = Inr RA \<and> union A B key = Inr RU
            \<and> docs RU = docs RA @ map ((!) (docs B))
                 [i \<leftarrow> [0..<length (docs B)].
                    k (docs B ! i) \<notin> k ` set (docs A)
                    \<and> (\<forall>j<i. k (docs B ! j) \<noteq> k (docs B ! i))]
            \<and> prefix (docs RA) (docs RU)))"
proof (intro conjI impI)
  show eq: "union A B key = filter_duplicates (DocumentSet_init (docs A @ docs B)) key"
    by (simp add: union_def)
  assume "case key of
      Some f \<Rightarrow> \<forall>d\<in>set (docs A @ docs B). f d = Inr (k d)
    | None \<Rightarrow>
        \<forall>d\<in>set (docs A @ docs B). \<exists>i. id_Document d = IdObj i \<and> k d = id_DocumentID i"
  then have total: "\<forall>d\<in>set (docs A @ docs B). key_or_default key d = Inr (k d)"
    by (rule key_or_default_returns)
  let ?AB = "DocumentSet_init (docs A @ docs B)"
  let ?RA = "DocumentSet_init (first_occurrences k {} (docs A))"
  let ?RU = "DocumentSet_init (first_occurrences k {} (docs A @ docs B))"
  from total have left: "\<forall>d\<in>set (docs A). key_or_default key d = Inr (k d)"
    by simp
  from total have both: "\<forall>d\<in>set (docs ?AB). key_or_default key d = Inr (k d)"
    by (simp add: DocumentSet_init_def)
  have ra: "filter_duplicates A key = Inr ?RA"
    by (rule filter_duplicates_total [OF left])
  have ru: "union A B key = Inr ?RU"
    using filter_duplicates_total [OF both] by (simp add: eq DocumentSet_init_def)
  have split: "docs ?RU = docs ?RA @ map ((!) (docs B))
      [i \<leftarrow> [0..<length (docs B)].
         k (docs B ! i) \<notin> k ` set (docs A) \<and> (\<forall>j<i. k (docs B ! j) \<noteq> k (docs B ! i))]"
    using first_occurrences_index [of k "k ` set (docs A)" "docs B"]
    by (simp add: DocumentSet_init_def first_occurrences_append)
  then have "prefix (docs ?RA) (docs ?RU)"
    by (rule prefixI)
  with ra ru split
  show "\<exists>RA RU. filter_duplicates A key = Inr RA \<and> union A B key = Inr RU
      \<and> docs RU = docs RA @ map ((!) (docs B))
           [i \<leftarrow> [0..<length (docs B)].
              k (docs B ! i) \<notin> k ` set (docs A) \<and> (\<forall>j<i. k (docs B ! j) \<noteq> k (docs B ! i))]
      \<and> prefix (docs RA) (docs RU)"
    by blast
qed

text \<open>
  The specification's scenario. With the default key both documents of the second set
  repeat a key of the first, so the union is the first set. With the title as the
  supplied key, \<open>docC\<close> has a title of its own and survives; \<open>docD\<close> repeats the title of
  \<open>docB\<close> and goes.
\<close>

theorem union_concatenate_then_filter_duplicates_witness:
  "union (DocumentSet_init [docA, docB]) (DocumentSet_init [docC, docD]) None =
     Inr (DocumentSet_init [docA, docB])
   \<and> union (DocumentSet_init [docA, docB]) (DocumentSet_init [docC, docD]) (Some title_key) =
     Inr (DocumentSet_init [docA, docB, docC])"
proof -
  let ?A = "DocumentSet_init [docA, docB]"
  let ?B = "DocumentSet_init [docC, docD]"
  have ra: "filter_duplicates ?A key = Inr RA \<Longrightarrow> docs RA = docs ?A"
    if "key = None \<or> key = Some title_key" for key RA
    using that
    by (auto simp: filter_duplicates_def key_or_default_def default_key_def sample_defs)
  have dflt: "case None of
      Some f \<Rightarrow> \<forall>d\<in>set (docs ?A @ docs ?B). f d = Inr (id_value d)
    | None \<Rightarrow>
        \<forall>d\<in>set (docs ?A @ docs ?B).
          \<exists>i. id_Document d = IdObj i \<and> id_value d = id_DocumentID i"
    by (simp add: sample_defs)
  from union_concatenate_then_filter_duplicates [of ?A ?B None id_value] dflt
  obtain RA RU where "filter_duplicates ?A None = Inr RA"
    and ru: "union ?A ?B None = Inr RU"
    and ds: "docs RU = docs RA @ map ((!) (docs ?B))
         [i \<leftarrow> [0..<length (docs ?B)].
            id_value (docs ?B ! i) \<notin> id_value ` set (docs ?A)
            \<and> (\<forall>j<i. id_value (docs ?B ! j) \<noteq> id_value (docs ?B ! i))]"
    by blast
  then have "docs RA = docs ?A"
    using ra [of None RA] by simp
  then have "docs RU = [docA, docB]"
    unfolding ds by (simp add: sample_defs All_less_Suc)
  then have "RU = DocumentSet_init [docA, docB]"
    by (simp add: DocumentSet_init_def)
  with ru have first: "union ?A ?B None = Inr (DocumentSet_init [docA, docB])"
    by simp
  have supplied: "case Some title_key of
      Some f \<Rightarrow> \<forall>d\<in>set (docs ?A @ docs ?B). f d = Inr (title_value d)
    | None \<Rightarrow>
        \<forall>d\<in>set (docs ?A @ docs ?B).
          \<exists>i. id_Document d = IdObj i \<and> title_value d = id_DocumentID i"
    by (simp add: sample_defs)
  from union_concatenate_then_filter_duplicates [of ?A ?B "Some title_key" title_value] supplied
  obtain RA' RU' where "filter_duplicates ?A (Some title_key) = Inr RA'"
    and ru': "union ?A ?B (Some title_key) = Inr RU'"
    and ds': "docs RU' = docs RA' @ map ((!) (docs ?B))
         [i \<leftarrow> [0..<length (docs ?B)].
            title_value (docs ?B ! i) \<notin> title_value ` set (docs ?A)
            \<and> (\<forall>j<i. title_value (docs ?B ! j) \<noteq> title_value (docs ?B ! i))]"
    by blast
  then have "docs RA' = docs ?A"
    using ra [of "Some title_key" RA'] by simp
  then have "docs RU' = [docA, docB, docC]"
    unfolding ds' by (simp add: sample_defs All_less_Suc)
  then have "RU' = DocumentSet_init [docA, docB, docC]"
    by (simp add: DocumentSet_init_def)
  with ru' have "union ?A ?B (Some title_key) = Inr (DocumentSet_init [docA, docB, docC])"
    by simp
  with first show ?thesis by (rule conjI)
qed

section \<open>\<^verbatim>\<open>difference\<close>\<close>

text \<open>
  Claim C3. Let \<open>k\<close> give the key of each document of \<open>A\<close> and of \<open>B\<close>: the value the
  supplied key function returns on it or, when no key function is supplied, the \<^verbatim>\<open>id\<close>
  attribute of its \<^verbatim>\<open>DocumentID\<close>. Then \<^verbatim>\<open>A.difference(B, key)\<close> returns a document set \<open>R\<close>
  holding, in the order of \<open>A\<close>, the documents at exactly those positions of \<open>A\<close> whose key
  is the key of no document of \<open>B\<close>. Nothing else is removed: a document whose key does
  not occur in \<open>B\<close> stands in \<open>R\<close> as often as in \<open>A\<close>, whatever keys the documents of \<open>A\<close>
  share among themselves. No key of \<open>R\<close> is a key of \<open>B\<close>.
\<close>

theorem difference_keeps_foreign_keys:
  assumes "case key of
             Some f \<Rightarrow> \<forall>d\<in>set (docs A @ docs B). f d = Inr (k d)
           | None \<Rightarrow>
               \<forall>d\<in>set (docs A @ docs B).
                 \<exists>i. id_Document d = IdObj i \<and> k d = id_DocumentID i"
  shows "\<exists>R. difference A B key = Inr R
           \<and> docs R = map ((!) (docs A))
                [i \<leftarrow> [0..<length (docs A)]. k (docs A ! i) \<notin> k ` set (docs B)]
           \<and> docs R = [d \<leftarrow> docs A. k d \<notin> k ` set (docs B)]
           \<and> (\<forall>d. count_list (docs R) d =
                  (if k d \<notin> k ` set (docs B) then count_list (docs A) d else 0))
           \<and> k ` set (docs R) \<inter> k ` set (docs B) = {}"
proof -
  let ?R = "DocumentSet_init [d \<leftarrow> docs A. k d \<notin> k ` set (docs B)]"
  have total: "\<forall>d\<in>set (docs A @ docs B). key_or_default key d = Inr (k d)"
    using assms by (rule key_or_default_returns)
  then have left: "\<forall>d\<in>set (docs A). key_or_default key d = Inr (k d)"
    and right: "\<forall>d\<in>set (docs B). key_or_default key d = Inr (k d)"
    by simp_all
  have "difference A B key = Inr ?R"
    using keys_other_loop_total [OF right, of "{}"]
      difference_loop_total [OF left, of "k ` set (docs B)" "[]"]
    by (simp add: difference_def)
  moreover have "docs ?R = map ((!) (docs A))
      [i \<leftarrow> [0..<length (docs A)]. k (docs A ! i) \<notin> k ` set (docs B)]"
    using nth_filter_upt [of "docs A" "\<lambda>d. k d \<notin> k ` set (docs B)"]
    by (simp add: DocumentSet_init_def)
  moreover have "docs ?R = [d \<leftarrow> docs A. k d \<notin> k ` set (docs B)]"
    by (simp add: DocumentSet_init_def)
  moreover have "\<forall>d. count_list (docs ?R) d =
      (if k d \<notin> k ` set (docs B) then count_list (docs A) d else 0)"
    by (simp add: DocumentSet_init_def count_list_filter)
  moreover have "k ` set (docs ?R) \<inter> k ` set (docs B) = {}"
    by (auto simp: DocumentSet_init_def)
  ultimately show ?thesis by blast
qed

text \<open>
  With the default key: \<open>docB\<close> (twice) and \<open>docD\<close> share an identifier that \<open>docC\<close> does
  not have, and all three stay; \<open>docA\<close> has the identifier of \<open>docC\<close> and goes. With the
  title as the supplied key: no document of the first set has the title of \<open>docC\<close>, and
  all four stay.
\<close>

theorem difference_keeps_foreign_keys_witness:
  "difference (DocumentSet_init [docB, docA, docD, docB]) (DocumentSet_init [docC]) None =
     Inr (DocumentSet_init [docB, docD, docB])
   \<and> difference (DocumentSet_init [docB, docA, docD, docB]) (DocumentSet_init [docC])
       (Some title_key) =
     Inr (DocumentSet_init [docB, docA, docD, docB])"
proof -
  let ?A = "DocumentSet_init [docB, docA, docD, docB]"
  let ?B = "DocumentSet_init [docC]"
  have dflt: "case None of
      Some f \<Rightarrow> \<forall>d\<in>set (docs ?A @ docs ?B). f d = Inr (id_value d)
    | None \<Rightarrow>
        \<forall>d\<in>set (docs ?A @ docs ?B).
          \<exists>i. id_Document d = IdObj i \<and> id_value d = id_DocumentID i"
    by (simp add: sample_defs)
  from difference_keeps_foreign_keys [OF dflt]
  obtain R where R: "difference ?A ?B None = Inr R"
    and ds: "docs R = [d \<leftarrow> docs ?A. id_value d \<notin> id_value ` set (docs ?B)]"
    by blast
  have "docs R = [docB, docD, docB]"
    unfolding ds by (simp add: sample_defs)
  then have "R = DocumentSet_init [docB, docD, docB]"
    by (simp add: DocumentSet_init_def)
  with R have first: "difference ?A ?B None = Inr (DocumentSet_init [docB, docD, docB])"
    by simp
  have supplied: "case Some title_key of
      Some f \<Rightarrow> \<forall>d\<in>set (docs ?A @ docs ?B). f d = Inr (title_value d)
    | None \<Rightarrow>
        \<forall>d\<in>set (docs ?A @ docs ?B).
          \<exists>i. id_Document d = IdObj i \<and> title_value d = id_DocumentID i"
    by (simp add: sample_defs)
  from difference_keeps_foreign_keys [OF supplied]
  obtain R' where R': "difference ?A ?B (Some title_key) = Inr R'"
    and ds': "docs R' = [d \<leftarrow> docs ?A. title_value d \<notin> title_value ` set (docs ?B)]"
    by blast
  have "docs R' = [docB, docA, docD, docB]"
    unfolding ds' by (simp add: sample_defs)
  then have "R' = DocumentSet_init [docB, docA, docD, docB]"
    by (simp add: DocumentSet_init_def)
  with R' have "difference ?A ?B (Some title_key) =
      Inr (DocumentSet_init [docB, docA, docD, docB])"
    by simp
  with first show ?thesis by (rule conjI)
qed

section \<open>\<^verbatim>\<open>filter\<close>\<close>

text \<open>
  Claim C8. For every document set \<open>C\<close> and every predicate \<open>p\<close>, \<^verbatim>\<open>C.filter(p)\<close> is a new
  document set holding, in the order of \<open>C\<close>, the documents at exactly those positions of
  \<open>C\<close> where \<open>p\<close> holds: a document is in the result if and only if it is in \<open>C\<close> and
  satisfies \<open>p\<close>, as often as it is in \<open>C\<close>. Filtering with the constantly true predicate
  gives the documents of \<open>C\<close> in the same order. The receiver is not changed: the result is
  built from a list comprehension over \<^verbatim>\<open>self.docs\<close>, which is only read.
\<close>

theorem filter_keeps_satisfying:
  "docs (filter_DocumentSet C p) =
     map ((!) (docs C)) [i \<leftarrow> [0..<length (docs C)]. p (docs C ! i)]
   \<and> set (docs (filter_DocumentSet C p)) = {d \<in> set (docs C). p d}
   \<and> (\<forall>d. count_list (docs (filter_DocumentSet C p)) d =
          (if p d then count_list (docs C) d else 0))
   \<and> subseq (docs (filter_DocumentSet C p)) (docs C)
   \<and> filter_DocumentSet C (\<lambda>_. True) = C"
  using nth_filter_upt [of "docs C" p]
  by (simp add: filter_DocumentSet_def DocumentSet_init_def count_list_filter)

section \<open>\<^verbatim>\<open>parse_bibtex\<close>\<close>

text \<open>A string in which \<open>old\<close> does not occur is left as it is.\<close>

lemma str_replace_absent:
  "old \<noteq> [] \<Longrightarrow> \<not> sublist old s \<Longrightarrow> str_replace s old new = s"
proof (induction s)
  case Nil
  from Nil.prems(1) show ?case by simp
next
  case (Cons c cs)
  have both: "\<not> prefix old (c # cs) \<and> \<not> sublist old cs"
    using Cons.prems(2) by (simp only: sublist_Cons_right de_Morgan_disj simp_thms)
  from both have np: "\<not> prefix old (c # cs)" by (rule conjunct1)
  from both have ns: "\<not> sublist old cs" by (rule conjunct2)
  have ih: "str_replace cs old new = cs"
    by (rule Cons.IH [OF Cons.prems(1) ns])
  have "str_replace (c # cs) old new = c # str_replace cs old new"
    by (simp only: str_replace.simps Cons.prems(1) np if_False)
  with ih show ?case by (simp only:)
qed

lemma str_replace_front:
  "old \<noteq> [] \<Longrightarrow> str_replace (old @ s) old new = new @ str_replace s old new"
  by (cases old) auto

lemma parse_bibtex_doi:
  "entry ''doi'' = Some v \<Longrightarrow>
   parse_bibtex self entry =
     Inr (self\<lparr>id_DocumentID :=
                 PStr (str_replace (str_replace v ''http://doi.org/'' [])
                         ''http://doi.ieeecomputersociety.org/'' []),
               is_doi := True\<rparr>)"
  by (simp add: parse_bibtex_def getitem_def)

lemma normalize_clean:
  assumes "\<not> sublist ''http://doi.org/'' r"
    and "\<not> sublist ''http://doi.ieeecomputersociety.org/'' r"
  shows "str_replace (str_replace r ''http://doi.org/'' [])
           ''http://doi.ieeecomputersociety.org/'' [] = r"
proof -
  have "str_replace r ''http://doi.org/'' [] = r"
    by (rule str_replace_absent [OF _ assms(1)]) simp
  moreover have "str_replace r ''http://doi.ieeecomputersociety.org/'' [] = r"
    by (rule str_replace_absent [OF _ assms(2)]) simp
  ultimately show ?thesis by (simp only:)
qed

lemma normalize_doi_org:
  assumes "\<not> sublist ''http://doi.org/'' r"
    and "\<not> sublist ''http://doi.ieeecomputersociety.org/'' r"
  shows "str_replace (str_replace (''http://doi.org/'' @ r) ''http://doi.org/'' [])
           ''http://doi.ieeecomputersociety.org/'' [] = r"
proof -
  have "str_replace (''http://doi.org/'' @ r) ''http://doi.org/'' [] =
        str_replace r ''http://doi.org/'' []"
    using str_replace_front [of "''http://doi.org/''" r "[]"] by simp
  then show ?thesis using normalize_clean [OF assms] by (simp only:)
qed

lemma normalize_doi_ieee:
  assumes "\<not> sublist ''http://doi.org/'' r"
    and "\<not> sublist ''http://doi.ieeecomputersociety.org/'' r"
  shows "str_replace (str_replace (''http://doi.ieeecomputersociety.org/'' @ r) ''http://doi.org/'' [])
           ''http://doi.ieeecomputersociety.org/'' [] = r"
proof -
  have r1: "str_replace r ''http://doi.org/'' [] = r"
    by (rule str_replace_absent [OF _ assms(1)]) simp
  have r2: "str_replace r ''http://doi.ieeecomputersociety.org/'' [] = r"
    by (rule str_replace_absent [OF _ assms(2)]) simp
  have "str_replace (''http://doi.ieeecomputersociety.org/'' @ r) ''http://doi.org/'' [] =
        ''http://doi.ieeecomputersociety.org/'' @ str_replace r ''http://doi.org/'' []"
    by simp
  also have "\<dots> = ''http://doi.ieeecomputersociety.org/'' @ r"
    by (simp only: r1)
  finally have "str_replace (str_replace (''http://doi.ieeecomputersociety.org/'' @ r) ''http://doi.org/'' [])
           ''http://doi.ieeecomputersociety.org/'' [] =
       str_replace (''http://doi.ieeecomputersociety.org/'' @ r) ''http://doi.ieeecomputersociety.org/'' []"
    by (simp only:)
  also have "\<dots> = str_replace r ''http://doi.ieeecomputersociety.org/'' []"
    using str_replace_front [of "''http://doi.ieeecomputersociety.org/''" r "[]"] by simp
  finally show ?thesis by (simp only: r2)
qed

text \<open>
  Claim C4, as the code has it. For every BibTeX entry with a \<^verbatim>\<open>doi\<close> field, \<^verbatim>\<open>parse_bibtex\<close>
  returns normally and sets \<^verbatim>\<open>is_doi\<close> to true and the identifier to the DOI value after
  two \<^verbatim>\<open>replace\<close> calls: every occurrence of \<^verbatim>\<open>"http://doi.org/"\<close> is removed, wherever it
  stands in the value, and then every occurrence of \<^verbatim>\<open>"http://doi.ieeecomputersociety.org/"\<close>.
  When the value is a string \<open>r\<close> that contains neither of the two, alone or behind one of
  them as a prefix, the identifier is \<open>r\<close>. The DOI \<^verbatim>\<open>"http://doi.org/10.1/xyz"\<close> gives the
  identifier \<^verbatim>\<open>"10.1/xyz"\<close>.
\<close>

theorem parse_bibtex_doi_present:
  assumes "entry ''doi'' = Some v"
  shows "parse_bibtex self entry =
           Inr (self\<lparr>id_DocumentID :=
                       PStr (str_replace (str_replace v ''http://doi.org/'' [])
                               ''http://doi.ieeecomputersociety.org/'' []),
                     is_doi := True\<rparr>)
       \<and> (\<not> sublist ''http://doi.org/'' r
            \<and> \<not> sublist ''http://doi.ieeecomputersociety.org/'' r
            \<and> (v = r \<or> v = ''http://doi.org/'' @ r
                 \<or> v = ''http://doi.ieeecomputersociety.org/'' @ r)
          \<longrightarrow> parse_bibtex self entry = Inr (self\<lparr>id_DocumentID := PStr r, is_doi := True\<rparr>))
       \<and> (v = ''http://doi.org/10.1/xyz''
          \<longrightarrow> parse_bibtex self entry =
                Inr (self\<lparr>id_DocumentID := PStr ''10.1/xyz'', is_doi := True\<rparr>))"
proof (intro conjI impI)
  show "parse_bibtex self entry =
           Inr (self\<lparr>id_DocumentID :=
                       PStr (str_replace (str_replace v ''http://doi.org/'' [])
                               ''http://doi.ieeecomputersociety.org/'' []),
                     is_doi := True\<rparr>)"
    using assms by (rule parse_bibtex_doi)
next
  assume h: "\<not> sublist ''http://doi.org/'' r
            \<and> \<not> sublist ''http://doi.ieeecomputersociety.org/'' r
            \<and> (v = r \<or> v = ''http://doi.org/'' @ r
                 \<or> v = ''http://doi.ieeecomputersociety.org/'' @ r)"
  from h have a: "\<not> sublist ''http://doi.org/'' r"
    by (rule conjunct1)
  from h have b: "\<not> sublist ''http://doi.ieeecomputersociety.org/'' r"
    by (rule conjunct1 [OF conjunct2])
  from h consider "v = r" | "v = ''http://doi.org/'' @ r"
    | "v = ''http://doi.ieeecomputersociety.org/'' @ r"
    by (elim conjE disjE)
  then have "str_replace (str_replace v ''http://doi.org/'' [])
               ''http://doi.ieeecomputersociety.org/'' [] = r"
  proof cases
    case 1
    then show ?thesis using normalize_clean [OF a b] by (simp only:)
  next
    case 2
    then show ?thesis using normalize_doi_org [OF a b] by (simp only:)
  next
    case 3
    then show ?thesis using normalize_doi_ieee [OF a b] by (simp only:)
  qed
  then show "parse_bibtex self entry = Inr (self\<lparr>id_DocumentID := PStr r, is_doi := True\<rparr>)"
    using parse_bibtex_doi [where entry = entry and v = v and self = self] assms by (simp only:)
next
  assume "v = ''http://doi.org/10.1/xyz''"
  then show "parse_bibtex self entry =
      Inr (self\<lparr>id_DocumentID := PStr ''10.1/xyz'', is_doi := True\<rparr>)"
    using parse_bibtex_doi [where entry = entry and v = v and self = self] assms by simp
qed

theorem parse_bibtex_doi_present_witness:
  "parse_bibtex (DocumentID_init None) [''doi'' \<mapsto> ''http://doi.org/10.1/xyz''] =
     Inr \<lparr>id_DocumentID = PStr ''10.1/xyz'', is_doi = True\<rparr>"
proof -
  have present: "[''doi'' \<mapsto> ''http://doi.org/10.1/xyz''] ''doi'' = Some ''http://doi.org/10.1/xyz''"
    by simp
  have clean: "\<not> sublist ''http://doi.org/'' ''10.1/xyz''
      \<and> \<not> sublist ''http://doi.ieeecomputersociety.org/'' ''10.1/xyz''
      \<and> (''http://doi.org/10.1/xyz'' = ''10.1/xyz''
          \<or> ''http://doi.org/10.1/xyz'' = ''http://doi.org/'' @ ''10.1/xyz''
          \<or> ''http://doi.org/10.1/xyz'' = ''http://doi.ieeecomputersociety.org/'' @ ''10.1/xyz'')"
    by (simp add: sublist_Cons_right)
  from parse_bibtex_doi_present
    [where entry = "[''doi'' \<mapsto> ''http://doi.org/10.1/xyz'']" and v = "''http://doi.org/10.1/xyz''"
       and self = "DocumentID_init None" and r = "''10.1/xyz''"] present clean
  have "parse_bibtex (DocumentID_init None) [''doi'' \<mapsto> ''http://doi.org/10.1/xyz''] =
      Inr ((DocumentID_init None)\<lparr>id_DocumentID := PStr ''10.1/xyz'', is_doi := True\<rparr>)"
    by blast
  then show ?thesis by (simp add: DocumentID_init_def)
qed

text \<open>
  The claim as stated says that the prefixes are stripped from the front and that text
  elsewhere in the value is unaffected. On the value \<^verbatim>\<open>"doi:http://doi.org/10.1/xyz"\<close>
  neither prefix stands at the front, so stripping from the front leaves the value as it
  is; \<^verbatim>\<open>parse_bibtex\<close> removes the URL from the middle, and its result is not even an end
  piece of the value.
\<close>

theorem parse_bibtex_strips_front_only_counterexample:
  "parse_bibtex (DocumentID_init None) [''doi'' \<mapsto> ''doi:http://doi.org/10.1/xyz''] =
     Inr \<lparr>id_DocumentID = PStr ''doi:10.1/xyz'', is_doi = True\<rparr>
   \<and> spec_normalize_doi ''doi:http://doi.org/10.1/xyz'' = ''doi:http://doi.org/10.1/xyz''
   \<and> \<not> suffix ''doi:10.1/xyz'' ''doi:http://doi.org/10.1/xyz''"
  by (simp add: parse_bibtex_def getitem_def DocumentID_init_def spec_normalize_doi_def
      strip_front_def suffix_def append_eq_Cons_conv)

section \<open>\<^verbatim>\<open>parse_dblp\<close>\<close>

text \<open>
  Claim C5. \<^verbatim>\<open>parse_dblp\<close> on a newly constructed \<^verbatim>\<open>DocumentID\<close>. When the entry has an
  \<^verbatim>\<open>"info"\<close> dictionary that holds \<^verbatim>\<open>"doi"\<close>, the identifier is that value and \<^verbatim>\<open>is_doi\<close> is
  true. The fallback is for entries with a nested title, which the specification expects
  of every entry that reaches it: when such an entry has no \<^verbatim>\<open>"doi"\<close>, the \<^verbatim>\<open>KeyError\<close> of
  the lookup is caught inside the method, the identifier is the nested title and
  \<^verbatim>\<open>is_doi\<close> is false. No exception reaches the caller for an entry with a nested title:
  if the method raises, the entry has none.
\<close>

theorem parse_dblp_doi_or_title:
  "(dblp ''info'' = Some info \<and> info ''doi'' = Some v
      \<longrightarrow> parse_dblp (DocumentID_init a) dblp = Inr \<lparr>id_DocumentID = v, is_doi = True\<rparr>)
   \<and> (dblp ''info'' = Some info \<and> info ''doi'' = None \<and> info ''title'' = Some t
      \<longrightarrow> parse_dblp (DocumentID_init a) dblp = Inr \<lparr>id_DocumentID = t, is_doi = False\<rparr>)
   \<and> (parse_dblp (DocumentID_init a) dblp = Inl e \<and> dblp ''info'' = Some info
      \<longrightarrow> info ''title'' = None)"
  by (auto simp: parse_dblp_def getitem_def DocumentID_init_def
      split: option.splits sum.splits error.splits)

text \<open>
  An entry with DOI and title, an entry with a title only, and an entry without a title,
  on which the method does raise.
\<close>

theorem parse_dblp_doi_or_title_witness:
  "parse_dblp (DocumentID_init None)
     [''info'' \<mapsto> [''title'' \<mapsto> PStr ''T'', ''doi'' \<mapsto> PStr ''10.1/x'']] =
     Inr \<lparr>id_DocumentID = PStr ''10.1/x'', is_doi = True\<rparr>
   \<and> parse_dblp (DocumentID_init None) [''info'' \<mapsto> [''title'' \<mapsto> PStr ''T'']] =
     Inr \<lparr>id_DocumentID = PStr ''T'', is_doi = False\<rparr>
   \<and> [''year'' \<mapsto> PStr ''2019''] ''title'' = None"
proof -
  let ?i1 = "[''title'' \<mapsto> PStr ''T'', ''doi'' \<mapsto> PStr ''10.1/x'']"
  let ?i2 = "[''title'' \<mapsto> PStr ''T'']"
  let ?i3 = "[''year'' \<mapsto> PStr ''2019'']"
  have h1: "[''info'' \<mapsto> ?i1] ''info'' = Some ?i1 \<and> ?i1 ''doi'' = Some (PStr ''10.1/x'')"
    by simp
  have h2: "[''info'' \<mapsto> ?i2] ''info'' = Some ?i2 \<and> ?i2 ''doi'' = None
      \<and> ?i2 ''title'' = Some (PStr ''T'')"
    by simp
  have h3: "parse_dblp (DocumentID_init None) [''info'' \<mapsto> ?i3] = Inl (KeyError ''title'')
      \<and> [''info'' \<mapsto> ?i3] ''info'' = Some ?i3"
    by (simp add: parse_dblp_def getitem_def)
  from h1 parse_dblp_doi_or_title
    [where dblp = "[''info'' \<mapsto> ?i1]" and info = ?i1 and v = "PStr ''10.1/x''" and a = None]
  have r1: "parse_dblp (DocumentID_init None) [''info'' \<mapsto> ?i1] =
      Inr \<lparr>id_DocumentID = PStr ''10.1/x'', is_doi = True\<rparr>"
    by blast
  from h2 parse_dblp_doi_or_title
    [where dblp = "[''info'' \<mapsto> ?i2]" and info = ?i2 and t = "PStr ''T''" and a = None]
  have r2: "parse_dblp (DocumentID_init None) [''info'' \<mapsto> ?i2] =
      Inr \<lparr>id_DocumentID = PStr ''T'', is_doi = False\<rparr>"
    by blast
  from h3 parse_dblp_doi_or_title
    [where dblp = "[''info'' \<mapsto> ?i3]" and info = ?i3 and a = None
       and e = "KeyError ''title''"]
  have r3: "?i3 ''title'' = None"
    by blast
  from r1 r2 r3 show ?thesis by (intro conjI)
qed

section \<open>\<^verbatim>\<open>parse_scopus\<close>\<close>

text \<open>
  Claim C6, as the code has it. \<^verbatim>\<open>parse_scopus\<close> on a newly constructed \<^verbatim>\<open>DocumentID\<close>: a
  DOI that is a non-empty string becomes the identifier, with \<^verbatim>\<open>is_doi\<close> true. With the
  DOI \<^verbatim>\<open>None\<close> or empty, an \<^verbatim>\<open>eid\<close> that is a non-empty string becomes the identifier,
  with \<^verbatim>\<open>is_doi\<close> false. With the \<^verbatim>\<open>eid\<close> \<^verbatim>\<open>None\<close> or empty as well, the identifier is the
  title, with \<^verbatim>\<open>is_doi\<close> false. The record with DOI \<^verbatim>\<open>""\<close>, eid \<^verbatim>\<open>"E123"\<close> and title \<^verbatim>\<open>"T"\<close>
  gets the identifier \<^verbatim>\<open>"E123"\<close>.
\<close>

theorem parse_scopus_fallback_chain:
  "(doi sa = PStr d \<and> d \<noteq> []
      \<longrightarrow> parse_scopus (DocumentID_init a) sa = \<lparr>id_DocumentID = PStr d, is_doi = True\<rparr>)
   \<and> ((doi sa = PNone \<or> doi sa = PStr []) \<and> eid sa = PStr e \<and> e \<noteq> []
      \<longrightarrow> parse_scopus (DocumentID_init a) sa = \<lparr>id_DocumentID = PStr e, is_doi = False\<rparr>)
   \<and> ((doi sa = PNone \<or> doi sa = PStr []) \<and> (eid sa = PNone \<or> eid sa = PStr [])
      \<longrightarrow> parse_scopus (DocumentID_init a) sa =
            \<lparr>id_DocumentID = title_scopus sa, is_doi = False\<rparr>)
   \<and> parse_scopus (DocumentID_init a)
        \<lparr>doi = PStr [], eid = PStr ''E123'', title_scopus = PStr ''T''\<rparr> =
      \<lparr>id_DocumentID = PStr ''E123'', is_doi = False\<rparr>"
  by (auto simp: parse_scopus_def DocumentID_init_def)

theorem parse_scopus_fallback_chain_witness:
  "parse_scopus (DocumentID_init None)
     \<lparr>doi = PStr ''10.1/x'', eid = PStr ''E123'', title_scopus = PStr ''T''\<rparr> =
     \<lparr>id_DocumentID = PStr ''10.1/x'', is_doi = True\<rparr>
   \<and> parse_scopus (DocumentID_init None)
     \<lparr>doi = PNone, eid = PStr ''E123'', title_scopus = PStr ''T''\<rparr> =
     \<lparr>id_DocumentID = PStr ''E123'', is_doi = False\<rparr>
   \<and> parse_scopus (DocumentID_init None)
     \<lparr>doi = PStr [], eid = PNone, title_scopus = PStr ''T''\<rparr> =
     \<lparr>id_DocumentID = PStr ''T'', is_doi = False\<rparr>"
proof -
  let ?s1 = "\<lparr>doi = PStr ''10.1/x'', eid = PStr ''E123'', title_scopus = PStr ''T''\<rparr>"
  let ?s2 = "\<lparr>doi = PNone, eid = PStr ''E123'', title_scopus = PStr ''T''\<rparr>"
  let ?s3 = "\<lparr>doi = PStr [], eid = PNone, title_scopus = PStr ''T''\<rparr>"
  have h1: "doi ?s1 = PStr ''10.1/x'' \<and> ''10.1/x'' \<noteq> []"
    by simp
  have h2: "(doi ?s2 = PNone \<or> doi ?s2 = PStr []) \<and> eid ?s2 = PStr ''E123'' \<and> ''E123'' \<noteq> []"
    by simp
  have h3: "(doi ?s3 = PNone \<or> doi ?s3 = PStr []) \<and> (eid ?s3 = PNone \<or> eid ?s3 = PStr [])"
    by simp
  from h1 parse_scopus_fallback_chain [where sa = ?s1 and d = "''10.1/x''" and a = None]
  have r1: "parse_scopus (DocumentID_init None) ?s1 =
      \<lparr>id_DocumentID = PStr ''10.1/x'', is_doi = True\<rparr>"
    by blast
  from h2 parse_scopus_fallback_chain [where sa = ?s2 and e = "''E123''" and a = None]
  have r2: "parse_scopus (DocumentID_init None) ?s2 =
      \<lparr>id_DocumentID = PStr ''E123'', is_doi = False\<rparr>"
    by blast
  from h3 parse_scopus_fallback_chain [where sa = ?s3 and a = None]
  have "parse_scopus (DocumentID_init None) ?s3 =
      \<lparr>id_DocumentID = title_scopus ?s3, is_doi = False\<rparr>"
    by blast
  then have r3: "parse_scopus (DocumentID_init None) ?s3 =
      \<lparr>id_DocumentID = PStr ''T'', is_doi = False\<rparr>"
    by simp
  from r1 r2 r3 show ?thesis by (simp only: simp_thms)
qed

text \<open>
  The claim as stated asks only that the \<^verbatim>\<open>eid\<close> be present for it to become the
  identifier. The test \<^verbatim>\<open>elif scopus_abstract.eid\<close> fails on an empty string as it does on
  \<^verbatim>\<open>None\<close>: an \<^verbatim>\<open>eid\<close> that is present and empty is passed over for the title.
\<close>

theorem parse_scopus_empty_eid_counterexample:
  "eid \<lparr>doi = PStr [], eid = PStr [], title_scopus = PStr ''T''\<rparr> \<noteq> PNone
   \<and> parse_scopus (DocumentID_init None)
        \<lparr>doi = PStr [], eid = PStr [], title_scopus = PStr ''T''\<rparr> =
      \<lparr>id_DocumentID = PStr ''T'', is_doi = False\<rparr>
   \<and> id_DocumentID (parse_scopus (DocumentID_init None)
        \<lparr>doi = PStr [], eid = PStr [], title_scopus = PStr ''T''\<rparr>) \<noteq>
      eid \<lparr>doi = PStr [], eid = PStr [], title_scopus = PStr ''T''\<rparr>"
  by (simp add: parse_scopus_def DocumentID_init_def)

section \<open>The constructors\<close>

lemma filter_absent_key:
  "map_of kw k = None \<Longrightarrow> [p \<leftarrow> kw. fst p \<noteq> k] = kw"
  by (induction kw) (auto split: if_splits)

lemma pop_default_eq:
  "pop_default kw k d =
     (case map_of kw k of None \<Rightarrow> d | Some v \<Rightarrow> v, [p \<leftarrow> kw. fst p \<noteq> k])"
  by (simp add: pop_default_def filter_absent_key split: option.splits)

lemma pop_eq:
  "pop kw k =
     (case map_of kw k of
        None \<Rightarrow> Inl (KeyError k)
      | Some v \<Rightarrow> Inr (v, [p \<leftarrow> kw. fst p \<noteq> k]))"
  by (simp add: pop_def)

lemma map_of_filter_other:
  "k \<noteq> k' \<Longrightarrow> map_of [p \<leftarrow> kw. fst p \<noteq> k'] k = map_of kw k"
  by (induction kw) auto

lemma unexpected_eq:
  "unexpected kw =
     (if map fst kw = [] then None
      else Some (KeyError (''got an unexpected keyword argument '' @ hd (map fst kw))))"
  by (cases kw) (auto simp: unexpected_def)

lemma Document_init_required:
  assumes "map_of kw ''id'' = Some i" and "map_of kw ''title'' = Some t"
    and ns: "''self'' \<notin> fst ` set kw"
  shows "\<exists>d. id_Document d = i \<and> title d = t \<and>
     Document_init kw =
       (if unrecognized Document_fields kw = [] then Inr d
        else Inl (KeyError (''got an unexpected keyword argument ''
                    @ hd (unrecognized Document_fields kw))))"
proof -
  define kw1 where "kw1 = [p \<leftarrow> kw. fst p \<noteq> ''id'']"
  define kw2 where "kw2 = [p \<leftarrow> kw1. fst p \<noteq> ''title'']"
  define kw3 where "kw3 = [p \<leftarrow> kw2. fst p \<noteq> ''authors'']"
  define v3 where "v3 = fst (pop_default kw2 ''authors'' (Val PNone))"
  define kw4 where "kw4 = [p \<leftarrow> kw3. fst p \<noteq> ''keywords'']"
  define v4 where "v4 = fst (pop_default kw3 ''keywords'' (Val PNone))"
  define kw5 where "kw5 = [p \<leftarrow> kw4. fst p \<noteq> ''abstract'']"
  define v5 where "v5 = fst (pop_default kw4 ''abstract'' (Val PNone))"
  define kw6 where "kw6 = [p \<leftarrow> kw5. fst p \<noteq> ''references'']"
  define v6 where "v6 = fst (pop_default kw5 ''references'' (Val PNone))"
  define kw7 where "kw7 = [p \<leftarrow> kw6. fst p \<noteq> ''year'']"
  define v7 where "v7 = fst (pop_default kw6 ''year'' (Val PNone))"
  define kw8 where "kw8 = [p \<leftarrow> kw7. fst p \<noteq> ''source'']"
  define v8 where "v8 = fst (pop_default kw7 ''source'' (Val PNone))"
  define kw9 where "kw9 = [p \<leftarrow> kw8. fst p \<noteq> ''source_type'']"
  define v9 where "v9 = fst (pop_default kw8 ''source_type'' (Val PNone))"
  define kw10 where "kw10 = [p \<leftarrow> kw9. fst p \<noteq> ''citation_count'']"
  define v10 where "v10 = fst (pop_default kw9 ''citation_count'' (Val PNone))"
  define kw11 where "kw11 = [p \<leftarrow> kw10. fst p \<noteq> ''internal'']"
  define v11 where "v11 = fst (pop_default kw10 ''internal'' (Val PNone))"
  define kw12 where "kw12 = [p \<leftarrow> kw11. fst p \<noteq> ''language'']"
  define v12 where "v12 = fst (pop_default kw11 ''language'' (Val PNone))"
  define kw13 where "kw13 = [p \<leftarrow> kw12. fst p \<noteq> ''publisher'']"
  define v13 where "v13 = fst (pop_default kw12 ''publisher'' (Val PNone))"
  have p1: "pop kw ''id'' = Inr (i, kw1)"
    using assms(1) by (simp add: pop_eq kw1_def)
  have p2: "pop kw1 ''title'' = Inr (t, kw2)"
    using assms(2) by (simp add: pop_eq kw1_def kw2_def map_of_filter_other)
  have p3: "pop_default kw2 ''authors'' (Val PNone) = (v3, kw3)"
    by (simp add: pop_default_eq kw3_def v3_def)
  have p4: "pop_default kw3 ''keywords'' (Val PNone) = (v4, kw4)"
    by (simp add: pop_default_eq kw4_def v4_def)
  have p5: "pop_default kw4 ''abstract'' (Val PNone) = (v5, kw5)"
    by (simp add: pop_default_eq kw5_def v5_def)
  have p6: "pop_default kw5 ''references'' (Val PNone) = (v6, kw6)"
    by (simp add: pop_default_eq kw6_def v6_def)
  have p7: "pop_default kw6 ''year'' (Val PNone) = (v7, kw7)"
    by (simp add: pop_default_eq kw7_def v7_def)
  have p8: "pop_default kw7 ''source'' (Val PNone) = (v8, kw8)"
    by (simp add: pop_default_eq kw8_def v8_def)
  have p9: "pop_default kw8 ''source_type'' (Val PNone) = (v9, kw9)"
    by (simp add: pop_default_eq kw9_def v9_def)
  have p10: "pop_default kw9 ''citation_count'' (Val PNone) = (v10, kw10)"
    by (simp add: pop_default_eq kw10_def v10_def)
  have p11: "pop_default kw10 ''internal'' (Val PNone) = (v11, kw11)"
    by (simp add: pop_default_eq kw11_def v11_def)
  have p12: "pop_default kw11 ''language'' (Val PNone) = (v12, kw12)"
    by (simp add: pop_default_eq kw12_def v12_def)
  have p13: "pop_default kw12 ''publisher'' (Val PNone) = (v13, kw13)"
    by (simp add: pop_default_eq kw13_def v13_def)
  let ?d = "\<lparr>id_Document = i, title = t, authors = v3, keywords_Document = v4,
      abstract = v5, references = v6, year = v7, source = v8, source_type = v9,
      citation_count = v10, internal = v11, language = v12, publisher = v13\<rparr>"
  have run: "Document_init kw = (case unexpected kw13 of Some e \<Rightarrow> Inl e | None \<Rightarrow> Inr ?d)"
    unfolding Document_init_def
    by (simp only: self_clash_def ns if_False p1 p2 p3 p4 p5 p6 p7 p8 p9 p10 p11 p12 p13
        Let_def prod.case sum.case)
  have "map fst kw13 = unrecognized Document_fields kw"
    unfolding kw13_def kw12_def kw11_def kw10_def kw9_def kw8_def kw7_def kw6_def kw5_def
      kw4_def kw3_def kw2_def kw1_def unrecognized_def Document_fields_def
    by (simp add: filter_map comp_def)
  with run have "Document_init kw =
       (if unrecognized Document_fields kw = [] then Inr ?d
        else Inl (KeyError (''got an unexpected keyword argument ''
                    @ hd (unrecognized Document_fields kw))))"
    by (simp add: unexpected_eq)
  moreover have "id_Document ?d = i \<and> title ?d = t"
    by simp
  ultimately show ?thesis by blast
qed

lemma Document_init_no_id:
  "''self'' \<notin> fst ` set kw \<Longrightarrow> map_of kw ''id'' = None \<Longrightarrow>
   Document_init kw = Inl (KeyError ''id'')"
  by (simp add: Document_init_def self_clash_def pop_eq del: map_of_eq_None_iff)

lemma Document_init_no_title:
  assumes "map_of kw ''id'' = Some i" and "map_of kw ''title'' = None"
    and ns: "''self'' \<notin> fst ` set kw"
  shows "Document_init kw = Inl (KeyError ''title'')"
proof -
  have "pop kw ''id'' = Inr (i, [p \<leftarrow> kw. fst p \<noteq> ''id''])"
    using assms(1) by (simp add: pop_eq)
  moreover have "pop [p \<leftarrow> kw. fst p \<noteq> ''id''] ''title'' = Inl (KeyError ''title'')"
    using assms(2) by (simp add: pop_eq map_of_filter_other del: map_of_eq_None_iff)
  ultimately show ?thesis
    unfolding Document_init_def by (simp only: self_clash_def ns if_False prod.case sum.case)
qed

lemma Author_init_required:
  assumes "map_of kw ''name'' = Some n" and ns: "''self'' \<notin> fst ` set kw"
  shows "\<exists>a. name_Author a = n \<and>
     Author_init kw =
       (if unrecognized Author_fields kw = [] then Inr a
        else Inl (KeyError (''got an unexpected keyword argument ''
                    @ hd (unrecognized Author_fields kw))))"
proof -
  define kw1 where "kw1 = [p \<leftarrow> kw. fst p \<noteq> ''orcid'']"
  define v1 where "v1 = fst (pop_default kw ''orcid'' (Val PNone))"
  define kw2 where "kw2 = [p \<leftarrow> kw1. fst p \<noteq> ''name'']"
  define kw3 where "kw3 = [p \<leftarrow> kw2. fst p \<noteq> ''affiliations'']"
  define v3 where "v3 = fst (pop_default kw2 ''affiliations'' (Val PNone))"
  have p1: "pop_default kw ''orcid'' (Val PNone) = (v1, kw1)"
    by (simp add: pop_default_eq kw1_def v1_def)
  have p2: "pop kw1 ''name'' = Inr (n, kw2)"
    using assms by (simp add: pop_eq kw1_def kw2_def map_of_filter_other)
  have p3: "pop_default kw2 ''affiliations'' (Val PNone) = (v3, kw3)"
    by (simp add: pop_default_eq kw3_def v3_def)
  let ?a = "\<lparr>orcid = v1, name_Author = n, affiliations = v3\<rparr>"
  have run: "Author_init kw = (case unexpected kw3 of Some e \<Rightarrow> Inl e | None \<Rightarrow> Inr ?a)"
    unfolding Author_init_def
    by (simp only: self_clash_def ns if_False p1 p2 p3 Let_def prod.case sum.case)
  have "map fst kw3 = unrecognized Author_fields kw"
    unfolding kw3_def kw2_def kw1_def unrecognized_def Author_fields_def
    by (simp add: filter_map comp_def)
  with run have "Author_init kw =
       (if unrecognized Author_fields kw = [] then Inr ?a
        else Inl (KeyError (''got an unexpected keyword argument ''
                    @ hd (unrecognized Author_fields kw))))"
    by (simp add: unexpected_eq)
  moreover have "name_Author ?a = n"
    by simp
  ultimately show ?thesis by blast
qed

lemma Author_init_no_name:
  assumes "map_of kw ''name'' = None" and ns: "''self'' \<notin> fst ` set kw"
  shows "Author_init kw = Inl (KeyError ''name'')"
proof -
  define kw1 where "kw1 = [p \<leftarrow> kw. fst p \<noteq> ''orcid'']"
  define v1 where "v1 = fst (pop_default kw ''orcid'' (Val PNone))"
  have p1: "pop_default kw ''orcid'' (Val PNone) = (v1, kw1)"
    by (simp add: pop_default_eq kw1_def v1_def)
  have p2: "pop kw1 ''name'' = Inl (KeyError ''name'')"
    using assms by (simp add: pop_eq kw1_def map_of_filter_other del: map_of_eq_None_iff)
  show ?thesis
    unfolding Author_init_def
    by (simp only: self_clash_def ns if_False p1 p2 Let_def prod.case sum.case)
qed

lemma Affiliation_init_required:
  assumes "map_of kw ''name'' = Some n" and ns: "''self'' \<notin> fst ` set kw"
  shows "\<exists>a. name_Affiliation a = n \<and>
     Affiliation_init kw =
       (if unrecognized Affiliation_fields kw = [] then Inr a
        else Inl (KeyError (''got an unexpected keyword argument ''
                    @ hd (unrecognized Affiliation_fields kw))))"
proof -
  define kw1 where "kw1 = [p \<leftarrow> kw. fst p \<noteq> ''name'']"
  define kw2 where "kw2 = [p \<leftarrow> kw1. fst p \<noteq> ''city'']"
  define v2 where "v2 = fst (pop_default kw1 ''city'' (Val PNone))"
  define kw3 where "kw3 = [p \<leftarrow> kw2. fst p \<noteq> ''country'']"
  define v3 where "v3 = fst (pop_default kw2 ''country'' (Val PNone))"
  have p1: "pop kw ''name'' = Inr (n, kw1)"
    using assms by (simp add: pop_eq kw1_def)
  have p2: "pop_default kw1 ''city'' (Val PNone) = (v2, kw2)"
    by (simp add: pop_default_eq kw2_def v2_def)
  have p3: "pop_default kw2 ''country'' (Val PNone) = (v3, kw3)"
    by (simp add: pop_default_eq kw3_def v3_def)
  let ?a = "\<lparr>name_Affiliation = n, city = v2, country = v3\<rparr>"
  have run: "Affiliation_init kw =
      (case unexpected kw3 of Some e \<Rightarrow> Inl e | None \<Rightarrow> Inr ?a)"
    unfolding Affiliation_init_def
    by (simp only: self_clash_def ns if_False p1 p2 p3 Let_def prod.case sum.case)
  have "map fst kw3 = unrecognized Affiliation_fields kw"
    unfolding kw3_def kw2_def kw1_def unrecognized_def Affiliation_fields_def
    by (simp add: filter_map comp_def)
  with run have "Affiliation_init kw =
       (if unrecognized Affiliation_fields kw = [] then Inr ?a
        else Inl (KeyError (''got an unexpected keyword argument ''
                    @ hd (unrecognized Affiliation_fields kw))))"
    by (simp add: unexpected_eq)
  moreover have "name_Affiliation ?a = n"
    by simp
  ultimately show ?thesis by blast
qed

lemma Affiliation_init_no_name:
  "''self'' \<notin> fst ` set kw \<Longrightarrow> map_of kw ''name'' = None \<Longrightarrow>
   Affiliation_init kw = Inl (KeyError ''name'')"
  by (simp add: Affiliation_init_def self_clash_def pop_eq del: map_of_eq_None_iff)

lemma init_self_clash:
  assumes "''self'' \<in> fst ` set kw"
  shows "Document_init kw = Inl (TypeError ''self'')"
    and "Author_init kw = Inl (TypeError ''self'')"
    and "Affiliation_init kw = Inl (TypeError ''self'')"
  using assms
  by (simp_all only: Document_init_def Author_init_def Affiliation_init_def self_clash_def
      if_True)

lemma hd_unrecognized:
  "unrecognized names kw \<noteq> [] \<Longrightarrow> hd (unrecognized names kw) \<in> fst ` set kw - set names"
proof -
  assume "unrecognized names kw \<noteq> []"
  then have "hd (unrecognized names kw) \<in> set (unrecognized names kw)"
    by (rule hd_in_set)
  then show ?thesis by (auto simp: unrecognized_def)
qed

text \<open>
  Claim C7, as the code has it. The name \<^verbatim>\<open>self\<close> is the one name that never reaches
  \<^verbatim>\<open>kwargs\<close>: supplied as a field name it clashes with the constructor's own parameter and
  the call fails with a \<^verbatim>\<open>TypeError\<close>. For every other map of named fields, each
  constructor first pops the names it knows, the required ones without a default, and
  then looks at what is left. When every required name is supplied (\<^verbatim>\<open>id\<close> and \<^verbatim>\<open>title\<close>
  for a \<^verbatim>\<open>Document\<close>, \<^verbatim>\<open>name\<close> for an \<^verbatim>\<open>Author\<close> and for an \<^verbatim>\<open>Affiliation\<close>): supplying any
  unrecognized name makes the construction fail with the \<^verbatim>\<open>KeyError\<close> whose message is
  \<^verbatim>\<open>got an unexpected keyword argument\<close> followed by the first unrecognized name in the
  order of the arguments; with recognized names only, the construction succeeds and the
  object holds the required values. When a required name is missing, the construction
  fails with the \<^verbatim>\<open>KeyError\<close> of the \<^verbatim>\<open>pop\<close>, which names the missing name, whatever other
  names are supplied.
\<close>

theorem constructors_reject_unrecognized:
  "(''self'' \<notin> fst ` set kw \<and> map_of kw ''id'' = Some i \<and> map_of kw ''title'' = Some t
      \<and> unrecognized Document_fields kw \<noteq> []
      \<longrightarrow> Document_init kw =
            Inl (KeyError (''got an unexpected keyword argument ''
                   @ hd (unrecognized Document_fields kw)))
          \<and> hd (unrecognized Document_fields kw) \<in> fst ` set kw - set Document_fields)
   \<and> (''self'' \<notin> fst ` set kw \<and> map_of kw ''id'' = Some i \<and> map_of kw ''title'' = Some t
      \<and> unrecognized Document_fields kw = []
      \<longrightarrow> (\<exists>d. Document_init kw = Inr d \<and> id_Document d = i \<and> title d = t))
   \<and> (''self'' \<notin> fst ` set kw \<and> map_of kw ''id'' = None
      \<longrightarrow> Document_init kw = Inl (KeyError ''id''))
   \<and> (''self'' \<notin> fst ` set kw \<and> map_of kw ''id'' = Some i \<and> map_of kw ''title'' = None
      \<longrightarrow> Document_init kw = Inl (KeyError ''title''))
   \<and> (''self'' \<notin> fst ` set kw \<and> map_of kw ''name'' = Some n
      \<and> unrecognized Author_fields kw \<noteq> []
      \<longrightarrow> Author_init kw =
            Inl (KeyError (''got an unexpected keyword argument ''
                   @ hd (unrecognized Author_fields kw)))
          \<and> hd (unrecognized Author_fields kw) \<in> fst ` set kw - set Author_fields)
   \<and> (''self'' \<notin> fst ` set kw \<and> map_of kw ''name'' = Some n
      \<and> unrecognized Author_fields kw = []
      \<longrightarrow> (\<exists>a. Author_init kw = Inr a \<and> name_Author a = n))
   \<and> (''self'' \<notin> fst ` set kw \<and> map_of kw ''name'' = None
      \<longrightarrow> Author_init kw = Inl (KeyError ''name''))
   \<and> (''self'' \<notin> fst ` set kw \<and> map_of kw ''name'' = Some n
      \<and> unrecognized Affiliation_fields kw \<noteq> []
      \<longrightarrow> Affiliation_init kw =
            Inl (KeyError (''got an unexpected keyword argument ''
                   @ hd (unrecognized Affiliation_fields kw)))
          \<and> hd (unrecognized Affiliation_fields kw) \<in> fst ` set kw - set Affiliation_fields)
   \<and> (''self'' \<notin> fst ` set kw \<and> map_of kw ''name'' = Some n
      \<and> unrecognized Affiliation_fields kw = []
      \<longrightarrow> (\<exists>a. Affiliation_init kw = Inr a \<and> name_Affiliation a = n))
   \<and> (''self'' \<notin> fst ` set kw \<and> map_of kw ''name'' = None
      \<longrightarrow> Affiliation_init kw = Inl (KeyError ''name''))
   \<and> (''self'' \<in> fst ` set kw
      \<longrightarrow> Document_init kw = Inl (TypeError ''self'')
          \<and> Author_init kw = Inl (TypeError ''self'')
          \<and> Affiliation_init kw = Inl (TypeError ''self''))"
proof (intro conjI impI; (elim conjE)?)
  assume "''self'' \<notin> fst ` set kw" "map_of kw ''id'' = Some i" "map_of kw ''title'' = Some t"
    "unrecognized Document_fields kw \<noteq> []"
  then show "Document_init kw =
      Inl (KeyError (''got an unexpected keyword argument ''
             @ hd (unrecognized Document_fields kw)))"
    using Document_init_required [of kw i t] by auto
next
  assume "unrecognized Document_fields kw \<noteq> []"
  then show "hd (unrecognized Document_fields kw) \<in> fst ` set kw - set Document_fields"
    by (rule hd_unrecognized)
next
  assume "''self'' \<notin> fst ` set kw" "map_of kw ''id'' = Some i" "map_of kw ''title'' = Some t"
    "unrecognized Document_fields kw = []"
  then show "\<exists>d. Document_init kw = Inr d \<and> id_Document d = i \<and> title d = t"
    using Document_init_required [of kw i t] by auto
next
  assume "''self'' \<notin> fst ` set kw" "map_of kw ''id'' = None"
  then show "Document_init kw = Inl (KeyError ''id'')"
    by (rule Document_init_no_id)
next
  assume "''self'' \<notin> fst ` set kw" "map_of kw ''id'' = Some i" "map_of kw ''title'' = None"
  then show "Document_init kw = Inl (KeyError ''title'')"
    using Document_init_no_title [of kw i] by blast
next
  assume "''self'' \<notin> fst ` set kw" "map_of kw ''name'' = Some n"
    "unrecognized Author_fields kw \<noteq> []"
  then show "Author_init kw =
      Inl (KeyError (''got an unexpected keyword argument ''
             @ hd (unrecognized Author_fields kw)))"
    using Author_init_required [of kw n] by auto
next
  assume "unrecognized Author_fields kw \<noteq> []"
  then show "hd (unrecognized Author_fields kw) \<in> fst ` set kw - set Author_fields"
    by (rule hd_unrecognized)
next
  assume "''self'' \<notin> fst ` set kw" "map_of kw ''name'' = Some n"
    "unrecognized Author_fields kw = []"
  then show "\<exists>a. Author_init kw = Inr a \<and> name_Author a = n"
    using Author_init_required [of kw n] by auto
next
  assume "''self'' \<notin> fst ` set kw" "map_of kw ''name'' = None"
  then show "Author_init kw = Inl (KeyError ''name'')"
    using Author_init_no_name [of kw] by blast
next
  assume "''self'' \<notin> fst ` set kw" "map_of kw ''name'' = Some n"
    "unrecognized Affiliation_fields kw \<noteq> []"
  then show "Affiliation_init kw =
      Inl (KeyError (''got an unexpected keyword argument ''
             @ hd (unrecognized Affiliation_fields kw)))"
    using Affiliation_init_required [of kw n] by auto
next
  assume "unrecognized Affiliation_fields kw \<noteq> []"
  then show "hd (unrecognized Affiliation_fields kw) \<in> fst ` set kw - set Affiliation_fields"
    by (rule hd_unrecognized)
next
  assume "''self'' \<notin> fst ` set kw" "map_of kw ''name'' = Some n"
    "unrecognized Affiliation_fields kw = []"
  then show "\<exists>a. Affiliation_init kw = Inr a \<and> name_Affiliation a = n"
    using Affiliation_init_required [of kw n] by auto
next
  assume "''self'' \<notin> fst ` set kw" "map_of kw ''name'' = None"
  then show "Affiliation_init kw = Inl (KeyError ''name'')"
    by (rule Affiliation_init_no_name)
next
  assume "''self'' \<in> fst ` set kw"
  then show "Document_init kw = Inl (TypeError ''self'')"
    by (rule init_self_clash(1))
next
  assume "''self'' \<in> fst ` set kw"
  then show "Author_init kw = Inl (TypeError ''self'')"
    by (rule init_self_clash(2))
next
  assume "''self'' \<in> fst ` set kw"
  then show "Affiliation_init kw = Inl (TypeError ''self'')"
    by (rule init_self_clash(3))
qed

text \<open>
  One construction for each case, the first being the specification's example with the
  extra name \<^verbatim>\<open>bogus\<close>, the last one supplying the name \<^verbatim>\<open>self\<close>.
\<close>

theorem constructors_reject_unrecognized_witness:
  "Document_init [(''title'', Val (PStr ''T'')), (''id'', IdObj (DocumentID_init None)),
                  (''bogus'', Val (PInt 1))] =
     Inl (KeyError ''got an unexpected keyword argument bogus'')
   \<and> (\<exists>d. Document_init [(''title'', Val (PStr ''T'')), (''id'', IdObj (DocumentID_init None)),
                           (''year'', Val (PInt 2019))] = Inr d
          \<and> id_Document d = IdObj (DocumentID_init None) \<and> title d = Val (PStr ''T''))
   \<and> Document_init [(''title'', Val (PStr ''T''))] = Inl (KeyError ''id'')
   \<and> Document_init [(''id'', IdObj (DocumentID_init None))] = Inl (KeyError ''title'')
   \<and> Author_init [(''name'', Val (PStr ''N'')), (''email'', Val (PStr ''E''))] =
     Inl (KeyError ''got an unexpected keyword argument email'')
   \<and> (\<exists>a. Author_init [(''name'', Val (PStr ''N'')), (''orcid'', Val (PStr ''O''))] = Inr a
          \<and> name_Author a = Val (PStr ''N''))
   \<and> Author_init [(''orcid'', Val (PStr ''O''))] = Inl (KeyError ''name'')
   \<and> Affiliation_init [(''zip'', Val (PInt 1)), (''name'', Val (PStr ''N''))] =
     Inl (KeyError ''got an unexpected keyword argument zip'')
   \<and> (\<exists>a. Affiliation_init [(''name'', Val (PStr ''N'')), (''city'', Val (PStr ''C''))] = Inr a
          \<and> name_Affiliation a = Val (PStr ''N''))
   \<and> Affiliation_init [(''city'', Val (PStr ''C''))] = Inl (KeyError ''name'')
   \<and> Document_init [(''self'', Val (PInt 1)), (''id'', IdObj (DocumentID_init None)),
                     (''title'', Val (PStr ''T''))] = Inl (TypeError ''self'')"
proof -
  let ?id = "IdObj (DocumentID_init None)"
  let ?T = "Val (PStr ''T'')"
  let ?N = "Val (PStr ''N'')"
  let ?d1 = "[(''title'', ?T), (''id'', ?id), (''bogus'', Val (PInt 1))]"
  let ?d2 = "[(''title'', ?T), (''id'', ?id), (''year'', Val (PInt 2019))]"
  let ?d3 = "[(''title'', ?T)]"
  let ?d4 = "[(''id'', ?id)]"
  let ?a1 = "[(''name'', ?N), (''email'', Val (PStr ''E''))]"
  let ?a2 = "[(''name'', ?N), (''orcid'', Val (PStr ''O''))]"
  let ?a3 = "[(''orcid'', Val (PStr ''O''))]"
  let ?f1 = "[(''zip'', Val (PInt 1)), (''name'', ?N)]"
  let ?f2 = "[(''name'', ?N), (''city'', Val (PStr ''C''))]"
  let ?f3 = "[(''city'', Val (PStr ''C''))]"
  let ?s1 = "[(''self'', Val (PInt 1)), (''id'', ?id), (''title'', ?T)]"
  have h1: "''self'' \<notin> fst ` set ?d1 \<and> map_of ?d1 ''id'' = Some ?id \<and> map_of ?d1 ''title'' = Some ?T
      \<and> unrecognized Document_fields ?d1 \<noteq> []"
    and u1: "hd (unrecognized Document_fields ?d1) = ''bogus''"
    by (simp_all add: unrecognized_def Document_fields_def)
  have h2: "''self'' \<notin> fst ` set ?d2 \<and> map_of ?d2 ''id'' = Some ?id \<and> map_of ?d2 ''title'' = Some ?T
      \<and> unrecognized Document_fields ?d2 = []"
    by (simp add: unrecognized_def Document_fields_def)
  have h3: "''self'' \<notin> fst ` set ?d3 \<and> map_of ?d3 ''id'' = None"
    by simp
  have h4: "''self'' \<notin> fst ` set ?d4 \<and> map_of ?d4 ''id'' = Some ?id \<and> map_of ?d4 ''title'' = None"
    by simp
  have h5: "''self'' \<notin> fst ` set ?a1 \<and> map_of ?a1 ''name'' = Some ?N \<and> unrecognized Author_fields ?a1 \<noteq> []"
    and u5: "hd (unrecognized Author_fields ?a1) = ''email''"
    by (simp_all add: unrecognized_def Author_fields_def)
  have h6: "''self'' \<notin> fst ` set ?a2 \<and> map_of ?a2 ''name'' = Some ?N \<and> unrecognized Author_fields ?a2 = []"
    by (simp add: unrecognized_def Author_fields_def)
  have h7: "''self'' \<notin> fst ` set ?a3 \<and> map_of ?a3 ''name'' = None"
    by simp
  have h8: "''self'' \<notin> fst ` set ?f1 \<and> map_of ?f1 ''name'' = Some ?N \<and> unrecognized Affiliation_fields ?f1 \<noteq> []"
    and u8: "hd (unrecognized Affiliation_fields ?f1) = ''zip''"
    by (simp_all add: unrecognized_def Affiliation_fields_def)
  have h9: "''self'' \<notin> fst ` set ?f2 \<and> map_of ?f2 ''name'' = Some ?N \<and> unrecognized Affiliation_fields ?f2 = []"
    by (simp add: unrecognized_def Affiliation_fields_def)
  have h10: "''self'' \<notin> fst ` set ?f3 \<and> map_of ?f3 ''name'' = None"
    by simp
  from h1 constructors_reject_unrecognized [where kw = ?d1 and i = ?id and t = ?T]
  have "Document_init ?d1 =
      Inl (KeyError (''got an unexpected keyword argument ''
             @ hd (unrecognized Document_fields ?d1)))"
    by blast
  then have r1: "Document_init ?d1 = Inl (KeyError ''got an unexpected keyword argument bogus'')"
    by (simp only: u1) simp
  from h2 constructors_reject_unrecognized [where kw = ?d2 and i = ?id and t = ?T]
  have r2: "\<exists>d. Document_init ?d2 = Inr d \<and> id_Document d = ?id \<and> title d = ?T"
    by blast
  from h3 constructors_reject_unrecognized [where kw = ?d3]
  have r3: "Document_init ?d3 = Inl (KeyError ''id'')"
    by blast
  from h4 constructors_reject_unrecognized [where kw = ?d4 and i = ?id]
  have r4: "Document_init ?d4 = Inl (KeyError ''title'')"
    by blast
  from h5 constructors_reject_unrecognized [where kw = ?a1 and n = ?N]
  have "Author_init ?a1 =
      Inl (KeyError (''got an unexpected keyword argument ''
             @ hd (unrecognized Author_fields ?a1)))"
    by blast
  then have r5: "Author_init ?a1 = Inl (KeyError ''got an unexpected keyword argument email'')"
    by (simp only: u5) simp
  from h6 constructors_reject_unrecognized [where kw = ?a2 and n = ?N]
  have r6: "\<exists>a. Author_init ?a2 = Inr a \<and> name_Author a = ?N"
    by blast
  from h7 constructors_reject_unrecognized [where kw = ?a3]
  have r7: "Author_init ?a3 = Inl (KeyError ''name'')"
    by blast
  from h8 constructors_reject_unrecognized [where kw = ?f1 and n = ?N]
  have "Affiliation_init ?f1 =
      Inl (KeyError (''got an unexpected keyword argument ''
             @ hd (unrecognized Affiliation_fields ?f1)))"
    by blast
  then have r8: "Affiliation_init ?f1 = Inl (KeyError ''got an unexpected keyword argument zip'')"
    by (simp only: u8) simp
  from h9 constructors_reject_unrecognized [where kw = ?f2 and n = ?N]
  have r9: "\<exists>a. Affiliation_init ?f2 = Inr a \<and> name_Affiliation a = ?N"
    by blast
  from h10 constructors_reject_unrecognized [where kw = ?f3]
  have r10: "Affiliation_init ?f3 = Inl (KeyError ''name'')"
    by blast
  have h11: "''self'' \<in> fst ` set ?s1"
    by simp
  from constructors_reject_unrecognized [where kw = ?s1 and i = ?id and t = ?T and n = ?N]
  have "''self'' \<in> fst ` set ?s1
      \<longrightarrow> Document_init ?s1 = Inl (TypeError ''self'')
          \<and> Author_init ?s1 = Inl (TypeError ''self'')
          \<and> Affiliation_init ?s1 = Inl (TypeError ''self'')"
    by (elim conjE)
  from mp [OF this h11]
  have r11: "Document_init ?s1 = Inl (TypeError ''self'')"
    by (rule conjunct1)
  from r1 r2 r3 r4 r5 r6 r7 r8 r9 r10 r11 show ?thesis
    by (intro conjI)
qed

text \<open>
  The claim as stated says that supplying an unrecognized name always makes the
  construction fail with a message that names it. With \<^verbatim>\<open>bogus\<close> as the only argument the
  required \<^verbatim>\<open>pop\<close> fails first: the \<^verbatim>\<open>KeyError\<close> names \<^verbatim>\<open>id\<close> (or \<^verbatim>\<open>name\<close>), and \<^verbatim>\<open>bogus\<close>
  is not in the message.
\<close>

theorem constructors_missing_required_counterexample:
  "Document_init [(''bogus'', Val (PInt 1))] = Inl (KeyError ''id'')
   \<and> \<not> sublist ''bogus'' ''id''
   \<and> Author_init [(''bogus'', Val (PInt 1))] = Inl (KeyError ''name'')
   \<and> Affiliation_init [(''bogus'', Val (PInt 1))] = Inl (KeyError ''name'')
   \<and> \<not> sublist ''bogus'' ''name''"
  by (simp add: Document_init_def Author_init_def Affiliation_init_def self_clash_def pop_def
      pop_default_def sublist_Cons_right)

section \<open>Documents whose identifier was never parsed\<close>




end
